theory Spec2Isabelle
  imports Main
begin

section \<open>Device Code Flow of the OpenAI Codex sign-in\<close>

text \<open>
  The development embeds the TypeScript of the design note
  (\<^verbatim>\<open>src/integrations/openai-codex/oauth.ts\<close>): \<^verbatim>\<open>requestDeviceCode\<close>,
  \<^verbatim>\<open>pollForDeviceAuthorization\<close>, \<^verbatim>\<open>exchangeDeviceCodeForTokens\<close> and the three
  Device Code methods of \<^verbatim>\<open>OpenAiCodexOAuthManager\<close>.

  Time is a natural number of milliseconds (\<^verbatim>\<open>Date.now()\<close>). Every thrown \<^verbatim>\<open>Error\<close> and every
  rejected promise is a value of \<open>error\<close>; a function that can throw returns \<open>error + 'a\<close>.
  The network is a parameter (\<open>env\<close>): what each endpoint answers and how long it takes.
  Every request that reaches the network is appended, with the time it is issued, to a log.
\<close>

subsection \<open>Errors, responses, requests\<close>

datatype error =
    NotEnabled                    \<comment> \<open>"Device code authentication is not enabled for your account. ..."\<close>
  | DeviceCodeRequestFailed nat   \<comment> \<open>"Device code request failed: ${response.status} ..."\<close>
  | PollingFailed nat             \<comment> \<open>"Device token polling failed: ${response.status}"\<close>
  | TimedOut                      \<comment> \<open>"Device code authentication timed out (15 minutes)"\<close>
  | NoPendingFlow                 \<comment> \<open>"No pending device code flow"\<close>
  | AbortError                    \<comment> \<open>the reason of a signal aborted by \<^verbatim>\<open>abort()\<close>\<close>
  | TimeoutError                  \<comment> \<open>the reason of \<^verbatim>\<open>AbortSignal.timeout\<close>\<close>
  | FetchFailed                   \<comment> \<open>\<^verbatim>\<open>fetch\<close> rejects: no response at all\<close>
  | ParseError                    \<comment> \<open>\<^verbatim>\<open>response.json()\<close> or the zod schema rejects the body\<close>
  | ExchangeFailed nat            \<comment> \<open>the token endpoint answers with a non-success status\<close>
  | MalformedResponse             \<comment> \<open>the answer of the token endpoint cannot be parsed\<close>

text \<open>
  What an endpoint answers: nothing (transport failure), or a status with a body. The body
  is kept as the result of \<^verbatim>\<open>schema.parse(await response.json())\<close>: \<open>None\<close> when that throws.
\<close>

datatype 'a reply = NetworkFailure | Response nat "'a option"

definition ok :: "nat \<Rightarrow> bool" where
  \<comment> \<open>\<^verbatim>\<open>response.ok\<close>\<close>
  "ok st \<longleftrightarrow> 200 \<le> st \<and> st \<le> 299"

record DeviceCodeResponse =
  device_auth_id :: string
  user_code :: string
  interval :: "nat option"

record DeviceTokenResponse =
  authorization_code :: string
  code_challenge :: string
  code_verifier :: string

text \<open>
  Modelled from the spec: the type \<^verbatim>\<open>OpenAiCodexCredentials\<close> is declared in a part of
  \<^verbatim>\<open>oauth.ts\<close> that the note does not show; the spec gives its content as
  \<^verbatim>\<open>Credentials{accessToken, refreshToken, idToken, accountId}\<close>.
\<close>

record OpenAiCodexCredentials =
  accessToken :: string
  refreshToken :: string
  idToken :: string
  accountId :: string

datatype request =
    DeviceCodeRequest string                  \<comment> \<open>POST deviceCodeEndpoint, \<^verbatim>\<open>{client_id}\<close>\<close>
  | DeviceTokenRequest string string          \<comment> \<open>POST deviceTokenEndpoint, \<^verbatim>\<open>{device_auth_id, user_code}\<close>\<close>
  | TokenRequest "(string \<times> string) list"    \<comment> \<open>POST token endpoint, the \<^verbatim>\<open>URLSearchParams\<close> body\<close>

record world =
  clock :: nat                                \<comment> \<open>\<^verbatim>\<open>Date.now()\<close>\<close>
  requests :: "(nat \<times> request) list"          \<comment> \<open>requests sent so far, oldest first, with their send time\<close>

record env =
  deviceCodeReply :: "DeviceCodeResponse reply"
  deviceCodeLatency :: nat
  pollReply :: "nat \<Rightarrow> DeviceTokenResponse reply"   \<comment> \<open>answer to the i-th poll of an attempt\<close>
  pollLatency :: "nat \<Rightarrow> nat"
  tokenReply :: "(string \<times> string) list \<Rightarrow> OpenAiCodexCredentials reply"
  tokenLatency :: nat

subsection \<open>Configuration constants\<close>

definition clientId :: string where
  \<comment> \<open>\<^verbatim>\<open>OPENAI_CODEX_OAUTH_CONFIG.clientId\<close>, as the flow diagram of the note gives it\<close>
  "clientId = ''app_EMoamEEZ73f0CkXaXp7hrann''"

definition deviceCallbackRedirectUri :: string where
  "deviceCallbackRedirectUri = ''https://auth.openai.com/deviceauth/callback''"

definition pollingIntervalMs :: nat where
  "pollingIntervalMs = 5000"

definition timeoutMs_default :: nat where
  \<comment> \<open>\<^verbatim>\<open>OPENAI_CODEX_DEVICE_AUTH_CONFIG.timeoutMs\<close>\<close>
  "timeoutMs_default = 15 * 60 * 1000"

subsection \<open>Abort signals, timers, fetch\<close>

text \<open>
  An \<^verbatim>\<open>AbortSignal\<close> is given by the instant at which it fires (\<open>None\<close>: it never does) and
  the reason it then carries. It is aborted from that instant on.
\<close>

datatype AbortSignal = AbortSignal (abortedAt: "nat option") (reason: error)

definition aborted :: "AbortSignal option \<Rightarrow> nat \<Rightarrow> bool" where
  \<comment> \<open>\<^verbatim>\<open>signal?.aborted\<close> read at time t\<close>
  "aborted sig t =
     (case sig of None \<Rightarrow> False
      | Some s \<Rightarrow> (case abortedAt s of None \<Rightarrow> False | Some c \<Rightarrow> c \<le> t))"

definition throwIfAborted :: "AbortSignal option \<Rightarrow> world \<Rightarrow> error + unit" where
  \<comment> \<open>\<^verbatim>\<open>options?.signal?.throwIfAborted()\<close>\<close>
  "throwIfAborted sig w =
     (case sig of None \<Rightarrow> Inr ()
      | Some s \<Rightarrow> if aborted sig (clock w) then Inl (reason s) else Inr ())"

definition setTimeoutDelay :: "nat \<Rightarrow> nat" where
  \<comment> \<open>Node's timers: a delay below 1 or above 2147483647 is set to 1\<close>
  "setTimeoutDelay ms = (if ms < 1 \<or> 2147483647 < ms then 1 else ms)"

definition sleep :: "nat \<Rightarrow> world \<Rightarrow> world" where
  \<comment> \<open>\<^verbatim>\<open>await new Promise(resolve => setTimeout(resolve, ms))\<close>: no signal can end it early\<close>
  "sleep ms w = w\<lparr>clock := clock w + setTimeoutDelay ms\<rparr>"

text \<open>
  \<^verbatim>\<open>fetch(url, {signal})\<close>. With a signal that is already aborted the promise rejects at once
  and nothing is sent. Otherwise the request is sent now; if the signal fires no later than
  the answer arrives, the promise rejects at that instant with the signal's reason;
  otherwise the answer arrives after the latency.
\<close>

definition fetch ::
  "AbortSignal option \<Rightarrow> request \<Rightarrow> 'a reply \<Rightarrow> nat \<Rightarrow> world \<Rightarrow> (error + nat \<times> 'a option) \<times> world" where
  "fetch sig req rep latency w =
     (case throwIfAborted sig w of
        Inl e \<Rightarrow> (Inl e, w)
      | Inr _ \<Rightarrow>
          (let sent = w\<lparr>requests := requests w @ [(clock w, req)]\<rparr>;
               arrival = clock w + latency
           in case sig of
                Some (AbortSignal (Some c) r) \<Rightarrow>
                  if c \<le> arrival then (Inl r, sent\<lparr>clock := c\<rparr>)
                  else (case rep of
                          NetworkFailure \<Rightarrow> (Inl FetchFailed, sent\<lparr>clock := arrival\<rparr>)
                        | Response st body \<Rightarrow> (Inr (st, body), sent\<lparr>clock := arrival\<rparr>))
              | _ \<Rightarrow> (case rep of
                          NetworkFailure \<Rightarrow> (Inl FetchFailed, sent\<lparr>clock := arrival\<rparr>)
                        | Response st body \<Rightarrow> (Inr (st, body), sent\<lparr>clock := arrival\<rparr>))))"

subsection \<open>The Device Authorization Client\<close>

definition requestDeviceCode :: "env \<Rightarrow> world \<Rightarrow> (error + DeviceCodeResponse) \<times> world" where
  "requestDeviceCode env w =
     (case fetch (Some (AbortSignal (Some (clock w + 30000)) TimeoutError))
                 (DeviceCodeRequest clientId) (deviceCodeReply env) (deviceCodeLatency env) w of
        (Inl e, w') \<Rightarrow> (Inl e, w')
      | (Inr (st, body), w') \<Rightarrow>
          if st = 404 then (Inl NotEnabled, w')
          else if \<not> ok st then (Inl (DeviceCodeRequestFailed st), w')
          else (case body of None \<Rightarrow> (Inl ParseError, w') | Some r \<Rightarrow> (Inr r, w')))"

definition postTokenRequest ::
  "env \<Rightarrow> (string \<times> string) list \<Rightarrow> world \<Rightarrow> (error + OpenAiCodexCredentials) \<times> world" where
  \<comment> \<open>Modelled from the spec: the remainder of \<^verbatim>\<open>exchangeDeviceCodeForTokens\<close>, which the source
      elides ("the same token parsing as the existing exchangeCodeForTokens()"): one POST to
      the token endpoint, \<open>ExchangeFailed status\<close> on any non-success response,
      \<open>MalformedResponse\<close> when the response cannot be parsed into the expected shape.\<close>
  "postTokenRequest env body w =
     (case fetch None (TokenRequest body) (tokenReply env body) (tokenLatency env) w of
        (Inl e, w') \<Rightarrow> (Inl e, w')
      | (Inr (st, parsed), w') \<Rightarrow>
          if \<not> ok st then (Inl (ExchangeFailed st), w')
          else (case parsed of None \<Rightarrow> (Inl MalformedResponse, w') | Some c \<Rightarrow> (Inr c, w')))"

definition exchangeDeviceCodeForTokens ::
  "env \<Rightarrow> string \<Rightarrow> string \<Rightarrow> world \<Rightarrow> (error + OpenAiCodexCredentials) \<times> world" where
  "exchangeDeviceCodeForTokens env authorizationCode codeVerifier w =
     (let body = [(''grant_type'', ''authorization_code''),
                  (''client_id'', clientId),
                  (''code'', authorizationCode),
                  (''redirect_uri'', deviceCallbackRedirectUri),
                  (''code_verifier'', codeVerifier)]
      in postTokenRequest env body w)"

text \<open>
  The \<^verbatim>\<open>while (Date.now() < deadline)\<close> loop of \<^verbatim>\<open>pollForDeviceAuthorization\<close>; \<open>i\<close> counts the
  polls already answered.
\<close>

function pollLoop ::
  "env \<Rightarrow> string \<Rightarrow> string \<Rightarrow> nat \<Rightarrow> nat \<Rightarrow> AbortSignal option \<Rightarrow> nat \<Rightarrow> world
     \<Rightarrow> (error + OpenAiCodexCredentials) \<times> world" where
  "pollLoop env deviceAuthId userCode intervalMs deadline sig i w =
     (if clock w < deadline then
        (case throwIfAborted sig w of
           Inl e \<Rightarrow> (Inl e, w)
         | Inr _ \<Rightarrow>
             (case fetch sig (DeviceTokenRequest deviceAuthId userCode)
                         (pollReply env i) (pollLatency env i) (sleep intervalMs w) of
                (Inl e, w') \<Rightarrow> (Inl e, w')
              | (Inr (st, body), w') \<Rightarrow>
                  if st = 403 \<or> st = 404 then
                    pollLoop env deviceAuthId userCode intervalMs deadline sig (Suc i) w'
                  else if \<not> ok st then (Inl (PollingFailed st), w')
                  else (case body of
                          None \<Rightarrow> (Inl ParseError, w')
                        | Some result \<Rightarrow>
                            exchangeDeviceCodeForTokens env
                              (authorization_code result) (code_verifier result) w')))
      else (Inl TimedOut, w))"
  by pat_completeness auto
termination
proof (relation "measure (\<lambda>(env, deviceAuthId, userCode, intervalMs, deadline, sig, i, w). deadline - clock w)")
  show "wf (measure (\<lambda>(env, deviceAuthId, userCode, intervalMs, deadline, sig, i, w). deadline - clock w))"
    by simp
next
  fix env :: env and deviceAuthId userCode :: string and intervalMs deadline :: nat
    and sig :: "AbortSignal option" and i :: nat and w w' :: world
    and x2 :: unit and x y :: "error + nat \<times> DeviceTokenResponse option"
    and x2a :: "nat \<times> DeviceTokenResponse option" and st :: nat and body :: "DeviceTokenResponse option"
  assume lt: "clock w < deadline"
    and f: "(x, w') = fetch sig (DeviceTokenRequest deviceAuthId userCode)
                (pollReply env i) (pollLatency env i) (sleep intervalMs w)"
    and x: "x = Inr x2a"
  from f x have "clock w' = clock (sleep intervalMs w) + pollLatency env i"
    by (auto simp: fetch_def Let_def
          split: sum.splits option.splits AbortSignal.splits reply.splits if_splits)
  then have "clock w < clock w'"
    by (simp add: sleep_def setTimeoutDelay_def)
  with lt show "((env, deviceAuthId, userCode, intervalMs, deadline, sig, Suc i, w'),
         (env, deviceAuthId, userCode, intervalMs, deadline, sig, i, w))
        \<in> measure (\<lambda>(env, deviceAuthId, userCode, intervalMs, deadline, sig, i, w). deadline - clock w)"
    by simp
qed

declare pollLoop.simps [simp del]

record options =
  intervalMs :: "nat option"
  timeoutMs :: "nat option"
  signal :: "AbortSignal option"

definition pollForDeviceAuthorization ::
  "env \<Rightarrow> string \<Rightarrow> string \<Rightarrow> options option \<Rightarrow> world
     \<Rightarrow> (error + OpenAiCodexCredentials) \<times> world" where
  "pollForDeviceAuthorization env deviceAuthId userCode opts w =
     (let interval = (case Option.bind opts intervalMs of Some ms \<Rightarrow> ms | None \<Rightarrow> pollingIntervalMs);
          timeout = (case Option.bind opts timeoutMs of Some ms \<Rightarrow> ms | None \<Rightarrow> timeoutMs_default);
          deadline = clock w + timeout
      in pollLoop env deviceAuthId userCode interval deadline (Option.bind opts signal) 0 w)"

subsection \<open>The Device Code methods of OpenAiCodexOAuthManager\<close>

text \<open>
  \<^verbatim>\<open>AbortController\<close> objects live in a store, \<open>controllers\<close>, from addresses to the state of
  their signal; the field \<^verbatim>\<open>deviceCodeAbortController\<close> holds an address or \<^verbatim>\<open>null\<close>.
\<close>

record OpenAiCodexOAuthManager =
  deviceCodeAbortController :: "nat option"
  controllers :: "nat \<rightharpoonup> AbortSignal"
  allocated :: nat                                      \<comment> \<open>the next free address\<close>
  credentials :: "OpenAiCodexCredentials option"        \<comment> \<open>what \<^verbatim>\<open>saveCredentials\<close> persisted last\<close>

definition abort :: "nat \<Rightarrow> nat \<Rightarrow> (nat \<rightharpoonup> AbortSignal) \<Rightarrow> (nat \<rightharpoonup> AbortSignal)" where
  \<comment> \<open>\<^verbatim>\<open>controller.abort()\<close> at time \<open>now\<close>: fires the signal unless it has fired already\<close>
  "abort a now cs =
     (case cs a of
        Some (AbortSignal None r) \<Rightarrow> cs(a \<mapsto> AbortSignal (Some now) AbortError)
      | _ \<Rightarrow> cs)"

definition cancelDeviceCodeFlow :: "OpenAiCodexOAuthManager \<Rightarrow> world \<Rightarrow> OpenAiCodexOAuthManager" where
  "cancelDeviceCodeFlow m w =
     (case deviceCodeAbortController m of
        None \<Rightarrow> m\<lparr>deviceCodeAbortController := None\<rparr>
      | Some a \<Rightarrow> m\<lparr>controllers := abort a (clock w) (controllers m),
                      deviceCodeAbortController := None\<rparr>)"

definition startDeviceCodeFlow ::
  "env \<Rightarrow> OpenAiCodexOAuthManager \<Rightarrow> world
     \<Rightarrow> (error + DeviceCodeResponse) \<times> OpenAiCodexOAuthManager \<times> world" where
  "startDeviceCodeFlow env m w =
     (let m1 = cancelDeviceCodeFlow m w;
          a = allocated m1;
          m2 = m1\<lparr>deviceCodeAbortController := Some a,
                   controllers := (controllers m1)(a \<mapsto> AbortSignal None AbortError),
                   allocated := Suc a\<rparr>;
          (r, w') = requestDeviceCode env w
      in (r, m2, w'))"

definition saveCredentials ::
  "OpenAiCodexOAuthManager \<Rightarrow> OpenAiCodexCredentials \<Rightarrow> OpenAiCodexOAuthManager" where
  \<comment> \<open>Modelled from the spec: \<^verbatim>\<open>saveCredentials\<close> is an existing method of the manager that the
      source does not show; it "persists them as the active CredentialSet".\<close>
  "saveCredentials m c = m\<lparr>credentials := Some c\<rparr>"

text \<open>
  The signal a pending call holds: the one of controller \<open>a\<close>. If it has not fired when the
  call starts, \<open>fires\<close> is the instant at which some other task calls
  \<^verbatim>\<open>cancelDeviceCodeFlow()\<close> on the manager while the call is pending (\<open>None\<close>: nobody does):
  that call aborts the controller and nulls the field, and the manager the pending call finds
  when it resumes is the one that call has left.
\<close>

definition pendingSignal :: "OpenAiCodexOAuthManager \<Rightarrow> nat option \<Rightarrow> nat \<Rightarrow> AbortSignal" where
  "pendingSignal m fires a =
     (case controllers m a of
        Some (AbortSignal (Some t) r) \<Rightarrow> AbortSignal (Some t) r
      | _ \<Rightarrow> AbortSignal fires AbortError)"

definition cancelledMeanwhile ::
  "OpenAiCodexOAuthManager \<Rightarrow> nat option \<Rightarrow> world \<Rightarrow> OpenAiCodexOAuthManager" where
  \<comment> \<open>the shared manager at the time of \<open>w'\<close>, when another task may have cancelled at \<open>fires\<close>\<close>
  "cancelledMeanwhile m fires w' =
     (case fires of
        None \<Rightarrow> m
      | Some c \<Rightarrow> if c \<le> clock w' then cancelDeviceCodeFlow m (w'\<lparr>clock := c\<rparr>) else m)"

definition waitForDeviceAuthorization ::
  "env \<Rightarrow> nat option \<Rightarrow> OpenAiCodexOAuthManager \<Rightarrow> world \<Rightarrow> string \<Rightarrow> string
     \<Rightarrow> (error + OpenAiCodexCredentials) \<times> OpenAiCodexOAuthManager \<times> world" where
  "waitForDeviceAuthorization env fires m w deviceAuthId userCode =
     (case deviceCodeAbortController m of
        None \<Rightarrow> (Inl NoPendingFlow, m, w)
      | Some a \<Rightarrow>
          (case pollForDeviceAuthorization env deviceAuthId userCode
                  (Some \<lparr>intervalMs = None, timeoutMs = None, signal = Some (pendingSignal m fires a)\<rparr>) w of
             (Inl e, w') \<Rightarrow> (Inl e, cancelledMeanwhile m fires w', w')
           | (Inr creds, w') \<Rightarrow>
               (Inr creds,
                (saveCredentials (cancelledMeanwhile m fires w') creds)\<lparr>deviceCodeAbortController := None\<rparr>,
                w')))"

definition initialManager :: OpenAiCodexOAuthManager where
  \<comment> \<open>\<^verbatim>\<open>private deviceCodeAbortController: AbortController | null = null\<close>; nothing stored yet\<close>
  "initialManager = \<lparr>deviceCodeAbortController = None, controllers = Map.empty,
                      allocated = 0, credentials = None\<rparr>"

text \<open>
  The remote branch (\<^verbatim>\<open>isRemoteEnvironment()\<close> holds) of \<^verbatim>\<open>startOpenAiCodexAuth\<close> in
  \<^verbatim>\<open>AuthView.tsx\<close>: start the flow, wait for the authorization with the identifiers of the
  answer, and on any error cancel the flow. The setters of the view and
  \<^verbatim>\<open>applyProviderConfig\<close> are left out.
\<close>

definition startOpenAiCodexAuth ::
  "env \<Rightarrow> nat option \<Rightarrow> OpenAiCodexOAuthManager \<Rightarrow> world
     \<Rightarrow> (error + OpenAiCodexCredentials) \<times> OpenAiCodexOAuthManager \<times> world" where
  "startOpenAiCodexAuth env fires m w =
     (case startDeviceCodeFlow env m w of
        (Inl e, m1, w1) \<Rightarrow> (Inl e, cancelDeviceCodeFlow m1 w1, w1)
      | (Inr deviceCode, m1, w1) \<Rightarrow>
          (case waitForDeviceAuthorization env fires m1 w1
                  (device_auth_id deviceCode) (user_code deviceCode) of
             (Inl e, m2, w2) \<Rightarrow> (Inl e, cancelDeviceCodeFlow m2 w2, w2)
           | (Inr creds, m2, w2) \<Rightarrow> (Inr creds, m2, w2)))"

subsection \<open>Notions used to state the properties\<close>

definition intervalOf :: "options option \<Rightarrow> nat" where
  \<comment> \<open>\<^verbatim>\<open>options?.intervalMs ?? OPENAI_CODEX_DEVICE_AUTH_CONFIG.pollingIntervalMs\<close>\<close>
  "intervalOf opts = (case Option.bind opts intervalMs of Some ms \<Rightarrow> ms | None \<Rightarrow> pollingIntervalMs)"

definition timeoutOf :: "options option \<Rightarrow> nat" where
  \<comment> \<open>\<^verbatim>\<open>options?.timeoutMs ?? OPENAI_CODEX_DEVICE_AUTH_CONFIG.timeoutMs\<close>\<close>
  "timeoutOf opts = (case Option.bind opts timeoutMs of Some ms \<Rightarrow> ms | None \<Rightarrow> timeoutMs_default)"

definition signalOf :: "options option \<Rightarrow> AbortSignal option" where
  \<comment> \<open>\<^verbatim>\<open>options?.signal\<close>\<close>
  "signalOf opts = Option.bind opts signal"

definition issued :: "world \<Rightarrow> world \<Rightarrow> (nat \<times> request) list" where
  \<comment> \<open>the requests sent between an earlier world and a later one\<close>
  "issued w w' = drop (length (requests w)) (requests w')"

fun isPoll :: "request \<Rightarrow> bool" where
  "isPoll (DeviceTokenRequest d u) = True"
| "isPoll _ = False"

fun isPending :: "'a reply \<Rightarrow> bool" where
  "isPending (Response st body) = (st = 403 \<or> st = 404)"
| "isPending NetworkFailure = False"

definition exchangeBody :: "string \<Rightarrow> string \<Rightarrow> (string \<times> string) list" where
  \<comment> \<open>the body that \<^verbatim>\<open>exchangeDeviceCodeForTokens\<close> builds\<close>
  "exchangeBody authorizationCode codeVerifier =
     [(''grant_type'', ''authorization_code''),
      (''client_id'', clientId),
      (''code'', authorizationCode),
      (''redirect_uri'', deviceCallbackRedirectUri),
      (''code_verifier'', codeVerifier)]"

definition answered :: "env \<Rightarrow> string \<Rightarrow> string \<Rightarrow> nat \<Rightarrow> nat \<Rightarrow> world \<Rightarrow> world" where
  \<comment> \<open>the world in which iteration \<open>i\<close>, begun in \<open>w\<close>, has slept, sent its poll and got the answer\<close>
  "answered env deviceAuthId userCode ms i w =
     w\<lparr>clock := clock w + setTimeoutDelay ms + pollLatency env i,
       requests := requests w @ [(clock w + setTimeoutDelay ms, DeviceTokenRequest deviceAuthId userCode)]\<rparr>"

text \<open>
  \<open>iterStart env d i t n\<close>: when iteration \<open>i\<close> of the loop starts at time \<open>t\<close>, with timer
  delay \<open>d\<close>, and every poll is answered, iteration \<open>i + n\<close> starts at this time. Poll \<open>i + n\<close>
  is sent \<open>d\<close> later.
\<close>

primrec iterStart :: "env \<Rightarrow> nat \<Rightarrow> nat \<Rightarrow> nat \<Rightarrow> nat \<Rightarrow> nat" where
  "iterStart env d i t 0 = t"
| "iterStart env d i t (Suc n) = iterStart env d i t n + d + pollLatency env (i + n)"

definition polls :: "env \<Rightarrow> string \<Rightarrow> string \<Rightarrow> nat \<Rightarrow> nat \<Rightarrow> nat \<Rightarrow> nat \<Rightarrow> (nat \<times> request) list" where
  \<comment> \<open>the first \<open>n\<close> poll requests from iteration \<open>i\<close> on\<close>
  "polls env deviceAuthId userCode d i t n =
     map (\<lambda>k. (iterStart env d i t k + d, DeviceTokenRequest deviceAuthId userCode)) [0..<n]"

subsection \<open>Concrete scenarios\<close>

definition world0 :: world where
  "world0 = \<lparr>clock = 0, requests = []\<rparr>"

definition creds0 :: OpenAiCodexCredentials where
  "creds0 = \<lparr>accessToken = ''at'', refreshToken = ''rt'', idToken = ''it'', accountId = ''acct''\<rparr>"

definition payload0 :: DeviceTokenResponse where
  "payload0 = \<lparr>authorization_code = ''ac1'', code_challenge = ''cc'', code_verifier = ''cv''\<rparr>"

definition scenarioEnv :: env where
  \<comment> \<open>the device-code endpoint answers \<^verbatim>\<open>{device_auth_id:"d1", user_code:"ABCD-EFGH", interval:5}\<close>;
      the poll endpoint answers not-found three times, then the success payload; the token
      endpoint answers with credentials; every answer is immediate\<close>
  "scenarioEnv =
     \<lparr>deviceCodeReply = Response 200
          (Some \<lparr>device_auth_id = ''d1'', user_code = ''ABCD-EFGH'', interval = Some 5\<rparr>),
      deviceCodeLatency = 0,
      pollReply = (\<lambda>i. if i < 3 then Response 404 None else Response 200 (Some payload0)),
      pollLatency = (\<lambda>i. 0),
      tokenReply = (\<lambda>body. Response 200 (Some creds0)),
      tokenLatency = 0\<rparr>"

definition exchangeFailsEnv :: env where
  \<comment> \<open>as \<open>scenarioEnv\<close>, but the token endpoint answers 400\<close>
  "exchangeFailsEnv = scenarioEnv\<lparr>tokenReply := (\<lambda>body. Response 400 None)\<rparr>"

definition providerIntervalEnv :: env where
  \<comment> \<open>as \<open>scenarioEnv\<close>, but the device-code endpoint asks for an interval of 10 seconds\<close>
  "providerIntervalEnv = scenarioEnv\<lparr>deviceCodeReply := Response 200
      (Some \<lparr>device_auth_id = ''d1'', user_code = ''ABCD-EFGH'', interval = Some 10\<rparr>)\<rparr>"

definition pendingEnv :: env where
  \<comment> \<open>the user never authorizes: every poll is answered forbidden, after 100 ms\<close>
  "pendingEnv = scenarioEnv\<lparr>pollReply := (\<lambda>i. Response 403 None), pollLatency := (\<lambda>i. 100),
                             deviceCodeLatency := 100\<rparr>"

definition notEnabledEnv :: env where
  \<comment> \<open>the device-code endpoint answers not-found\<close>
  "notEnabledEnv = scenarioEnv\<lparr>deviceCodeReply := Response 404 None\<rparr>"

definition deviceCodeFailsEnv :: env where
  \<comment> \<open>the device-code endpoint answers 500\<close>
  "deviceCodeFailsEnv = scenarioEnv\<lparr>deviceCodeReply := Response 500 None\<rparr>"

definition serverErrorEnv :: env where
  \<comment> \<open>the poll endpoint answers 500\<close>
  "serverErrorEnv = scenarioEnv\<lparr>pollReply := (\<lambda>i. Response 500 None)\<rparr>"

definition lateSuccessEnv :: env where
  \<comment> \<open>every answer takes 2 s; the polls are answered not-found until the user authorizes,
      and the poll sent at 901 s is the first to be answered with the success payload\<close>
  "lateSuccessEnv = scenarioEnv\<lparr>pollReply := (\<lambda>i. if i < 128 then Response 404 None
                                                    else Response 200 (Some payload0)),
                                 pollLatency := (\<lambda>i. 2000)\<rparr>"

definition signedInManager :: OpenAiCodexOAuthManager where
  \<comment> \<open>a manager that holds credentials from an earlier sign-in\<close>
  "signedInManager = initialManager\<lparr>credentials :=
     Some \<lparr>accessToken = ''old-at'', refreshToken = ''old-rt'', idToken = ''old-it'', accountId = ''acct''\<rparr>\<rparr>"

definition cancelledAt :: "nat option \<Rightarrow> nat \<Rightarrow> options" where
  \<comment> \<open>the options \<^verbatim>\<open>{intervalMs, signal}\<close> with a signal that fires at the given time\<close>
  "cancelledAt ms c = \<lparr>intervalMs = ms, timeoutMs = None, signal = Some (AbortSignal (Some c) AbortError)\<rparr>"

definition slowCodeEnv :: env where
  \<comment> \<open>as \<open>scenarioEnv\<close>, but the device-code endpoint takes 100 ms to answer\<close>
  "slowCodeEnv = scenarioEnv\<lparr>deviceCodeLatency := 100\<rparr>"

definition firstStart ::
  "(error + DeviceCodeResponse) \<times> OpenAiCodexOAuthManager \<times> world" where
  \<comment> \<open>a first attempt calls \<^verbatim>\<open>startDeviceCodeFlow\<close> at time 0\<close>
  "firstStart = startDeviceCodeFlow slowCodeEnv initialManager world0"

definition secondStart ::
  "(error + DeviceCodeResponse) \<times> OpenAiCodexOAuthManager \<times> world" where
  \<comment> \<open>a second attempt calls it at 50 ms, on the manager as the first call has left it\<close>
  "secondStart = startDeviceCodeFlow slowCodeEnv (fst (snd firstStart))
                   \<lparr>clock = 50, requests = [(0, DeviceCodeRequest clientId)]\<rparr>"

section \<open>Auxiliary facts\<close>

subsection \<open>fetch, signals, the token exchange\<close>

lemma fetch_Inr:
  "fetch sig req rep latency w = (Inr x, w') \<Longrightarrow>
     w' = w\<lparr>clock := clock w + latency, requests := requests w @ [(clock w, req)]\<rparr>
     \<and> \<not> aborted sig (clock w + latency) \<and> (\<exists>st body. rep = Response st body \<and> x = (st, body))"
  by (auto simp: fetch_def Let_def throwIfAborted_def aborted_def
      split: sum.splits option.splits AbortSignal.splits reply.splits if_splits)

lemma fetch_Inl:
  "fetch sig req rep latency w = (Inl e, w') \<Longrightarrow>
     (aborted sig (clock w) \<and> w' = w \<and> (\<exists>s. sig = Some s \<and> e = reason s))
   \<or> (\<not> aborted sig (clock w) \<and>
        (\<exists>s c. sig = Some s \<and> abortedAt s = Some c \<and> c \<le> clock w + latency \<and> e = reason s
           \<and> w' = w\<lparr>clock := c, requests := requests w @ [(clock w, req)]\<rparr>))
   \<or> (\<not> aborted sig (clock w + latency) \<and> rep = NetworkFailure \<and> e = FetchFailed
        \<and> w' = w\<lparr>clock := clock w + latency, requests := requests w @ [(clock w, req)]\<rparr>)"
  by (auto simp: fetch_def Let_def throwIfAborted_def aborted_def
      split: sum.splits option.splits AbortSignal.splits reply.splits if_splits)

lemma aborted_mono: "aborted sig t \<Longrightarrow> t \<le> t' \<Longrightarrow> aborted sig t'"
  by (auto simp: aborted_def split: option.splits)

lemma aborted_add: "aborted sig t \<Longrightarrow> aborted sig (t + k)"
  by (auto simp: aborted_def split: option.splits)

lemma throwIfAborted_Inl:
  "throwIfAborted sig w = Inl e \<Longrightarrow> aborted sig (clock w) \<and> (\<exists>s. sig = Some s \<and> e = reason s)"
  by (auto simp: throwIfAborted_def split: option.splits if_splits)

lemma throwIfAborted_Inr_iff: "throwIfAborted sig w = Inr u \<longleftrightarrow> \<not> aborted sig (clock w)"
  by (auto simp: throwIfAborted_def aborted_def split: option.splits if_splits)

lemma postTokenRequest_world:
  "postTokenRequest env body w = (r, w') \<Longrightarrow>
     w' = w\<lparr>clock := clock w + tokenLatency env, requests := requests w @ [(clock w, TokenRequest body)]\<rparr>"
  by (auto simp: postTokenRequest_def fetch_def Let_def throwIfAborted_def
      split: sum.splits option.splits reply.splits if_splits prod.splits)

lemma exchange_world:
  "exchangeDeviceCodeForTokens env ac cv w = (r, w') \<Longrightarrow>
     w' = w\<lparr>clock := clock w + tokenLatency env,
           requests := requests w @
             [(clock w, TokenRequest [(''grant_type'', ''authorization_code''),
                  (''client_id'', clientId), (''code'', ac),
                  (''redirect_uri'', deviceCallbackRedirectUri), (''code_verifier'', cv)])]\<rparr>"
  by (auto simp: exchangeDeviceCodeForTokens_def Let_def dest: postTokenRequest_world)

subsection \<open>Runs of the polling loop\<close>

text \<open>One iteration of the loop, by cases.\<close>

lemma pollLoop_cases [consumes 1, case_names TimedOut Aborted Asleep InFlight NoAnswer Pending Failed Unparsed Exchange]:
  assumes run: "pollLoop env da uc iv deadline sig i w = (r, w')"
  obtains
    (TimedOut) "\<not> clock w < deadline" "r = Inl TimedOut" "w' = w"
  | (Aborted) s where "clock w < deadline" "sig = Some s" "aborted sig (clock w)"
      "r = Inl (reason s)" "w' = w"
  | (Asleep) s where "clock w < deadline" "sig = Some s" "\<not> aborted sig (clock w)"
      "aborted sig (clock w + setTimeoutDelay iv)" "r = Inl (reason s)" "w' = sleep iv w"
  | (InFlight) s c where "clock w < deadline" "sig = Some s" "abortedAt s = Some c"
      "\<not> aborted sig (clock w + setTimeoutDelay iv)"
      "c \<le> clock w + setTimeoutDelay iv + pollLatency env i"
      "r = Inl (reason s)" "w' = (answered env da uc iv i w)\<lparr>clock := c\<rparr>"
  | (NoAnswer) "clock w < deadline"
      "\<not> aborted sig (clock w + setTimeoutDelay iv + pollLatency env i)"
      "pollReply env i = NetworkFailure" "r = Inl FetchFailed" "w' = answered env da uc iv i w"
  | (Pending) st body where "clock w < deadline"
      "\<not> aborted sig (clock w + setTimeoutDelay iv + pollLatency env i)"
      "pollReply env i = Response st body" "st = 403 \<or> st = 404"
      "pollLoop env da uc iv deadline sig (Suc i) (answered env da uc iv i w) = (r, w')"
  | (Failed) st body where "clock w < deadline"
      "\<not> aborted sig (clock w + setTimeoutDelay iv + pollLatency env i)"
      "pollReply env i = Response st body" "st \<noteq> 403" "st \<noteq> 404" "\<not> ok st"
      "r = Inl (PollingFailed st)" "w' = answered env da uc iv i w"
  | (Unparsed) st where "clock w < deadline"
      "\<not> aborted sig (clock w + setTimeoutDelay iv + pollLatency env i)"
      "pollReply env i = Response st None" "ok st"
      "r = Inl ParseError" "w' = answered env da uc iv i w"
  | (Exchange) st res where "clock w < deadline"
      "\<not> aborted sig (clock w + setTimeoutDelay iv + pollLatency env i)"
      "pollReply env i = Response st (Some res)" "ok st"
      "exchangeDeviceCodeForTokens env (authorization_code res) (code_verifier res)
         (answered env da uc iv i w) = (r, w')"
proof (cases "clock w < deadline")
  case False
  with run have "r = Inl TimedOut" "w' = w" by (subst (asm) pollLoop.simps, simp)+
  with False show thesis by (rule TimedOut)
next
  case lt: True
  show thesis
  proof (cases "throwIfAborted sig w")
    case (Inl e)
    with lt run have "r = Inl e" "w' = w" by (subst (asm) pollLoop.simps, simp)+
    with throwIfAborted_Inl[OF Inl] lt show thesis by (auto intro: Aborted)
  next
    case (Inr u)
    then have na: "\<not> aborted sig (clock w)" by (simp add: throwIfAborted_Inr_iff)
    obtain x w1 where f: "fetch sig (DeviceTokenRequest da uc) (pollReply env i) (pollLatency env i) (sleep iv w) = (x, w1)"
      by (cases "fetch sig (DeviceTokenRequest da uc) (pollReply env i) (pollLatency env i) (sleep iv w)")
    show thesis
    proof (cases x)
      case (Inl e)
      with lt Inr f run have rw: "r = Inl e" "w' = w1"
        by (subst (asm) pollLoop.simps, simp)+
      from fetch_Inl[OF f[unfolded Inl]]
      consider (a) s where "aborted sig (clock w + setTimeoutDelay iv)" "w1 = sleep iv w" "sig = Some s" "e = reason s"
        | (b) s c where "\<not> aborted sig (clock w + setTimeoutDelay iv)" "sig = Some s" "abortedAt s = Some c"
            "c \<le> clock w + setTimeoutDelay iv + pollLatency env i" "e = reason s"
            "w1 = (answered env da uc iv i w)\<lparr>clock := c\<rparr>"
        | (c) "\<not> aborted sig (clock w + setTimeoutDelay iv + pollLatency env i)" "pollReply env i = NetworkFailure"
            "e = FetchFailed" "w1 = answered env da uc iv i w"
        by (auto simp: sleep_def answered_def)
      then show thesis
      proof cases
        case a with lt na rw show thesis by (auto intro: Asleep)
      next
        case b with lt rw show thesis by (auto intro: InFlight)
      next
        case c with lt rw show thesis by (auto intro: NoAnswer)
      qed
    next
      case stb: (Inr stb)
      obtain st body where [simp]: "stb = (st, body)" by (cases stb)
      from fetch_Inr[OF f[unfolded stb]]
      have w1: "w1 = answered env da uc iv i w"
        and na1: "\<not> aborted sig (clock w + setTimeoutDelay iv + pollLatency env i)"
        and rep: "pollReply env i = Response st body"
        by (auto simp: sleep_def answered_def)
      from lt Inr f stb run
      have body: "if st = 403 \<or> st = 404 then pollLoop env da uc iv deadline sig (Suc i) w1 = (r, w')
              else if \<not> ok st then r = Inl (PollingFailed st) \<and> w' = w1
              else case body of
                     None \<Rightarrow> r = Inl ParseError \<and> w' = w1
                   | Some res \<Rightarrow> exchangeDeviceCodeForTokens env (authorization_code res) (code_verifier res) w1 = (r, w')"
        by (subst (asm) pollLoop.simps) (auto split: option.splits)
      show thesis
      proof (cases "st = 403 \<or> st = 404")
        case True
        with body w1 have "pollLoop env da uc iv deadline sig (Suc i) (answered env da uc iv i w) = (r, w')" by simp
        with lt na1 rep True show thesis by (rule Pending)
      next
        case np: False
        show thesis
        proof (cases "ok st")
          case False
          with np body w1 have "r = Inl (PollingFailed st)" "w' = answered env da uc iv i w" by auto
          with lt na1 rep np False show thesis by (auto intro: Failed)
        next
          case True
          show thesis
          proof (cases body)
            case None
            with np True body w1 have "r = Inl ParseError" "w' = answered env da uc iv i w" by auto
            with lt na1 rep None True show thesis by (auto intro: Unparsed)
          next
            case (Some res)
            with np True body w1 have "exchangeDeviceCodeForTokens env (authorization_code res) (code_verifier res)
               (answered env da uc iv i w) = (r, w')" by auto
            with lt na1 rep Some True show thesis by (auto intro: Exchange)
          qed
        qed
      qed
    qed
  qed
qed


lemma setTimeoutDelay_pos: "0 < setTimeoutDelay ms"
  by (simp add: setTimeoutDelay_def)

lemma clock_answered [simp]:
  "clock (answered env da uc iv i w) = clock w + setTimeoutDelay iv + pollLatency env i"
  by (simp add: answered_def)

lemma requests_answered [simp]:
  "requests (answered env da uc iv i w) =
     requests w @ [(clock w + setTimeoutDelay iv, DeviceTokenRequest da uc)]"
  by (simp add: answered_def)

lemma pollLoop_run_induct [consumes 1, case_names TimedOut Aborted Asleep InFlight NoAnswer Pending Failed Unparsed Exchange]:
  assumes run: "pollLoop env da uc iv deadline sig i w = (r, w')"
    and TimedOut: "\<And>i w. \<lbrakk>\<not> clock w < deadline; r = Inl TimedOut; w' = w\<rbrakk> \<Longrightarrow> P i w"
    and Aborted: "\<And>i w s. \<lbrakk>clock w < deadline; sig = Some s; aborted sig (clock w);
        r = Inl (reason s); w' = w\<rbrakk> \<Longrightarrow> P i w"
    and Asleep: "\<And>i w s. \<lbrakk>clock w < deadline; sig = Some s; \<not> aborted sig (clock w);
        aborted sig (clock w + setTimeoutDelay iv); r = Inl (reason s); w' = sleep iv w\<rbrakk> \<Longrightarrow> P i w"
    and InFlight: "\<And>i w s c. \<lbrakk>clock w < deadline; sig = Some s; abortedAt s = Some c;
        \<not> aborted sig (clock w + setTimeoutDelay iv);
        c \<le> clock w + setTimeoutDelay iv + pollLatency env i;
        r = Inl (reason s); w' = (answered env da uc iv i w)\<lparr>clock := c\<rparr>\<rbrakk> \<Longrightarrow> P i w"
    and NoAnswer: "\<And>i w. \<lbrakk>clock w < deadline;
        \<not> aborted sig (clock w + setTimeoutDelay iv + pollLatency env i);
        pollReply env i = NetworkFailure; r = Inl FetchFailed; w' = answered env da uc iv i w\<rbrakk> \<Longrightarrow> P i w"
    and Pending: "\<And>i w st body. \<lbrakk>clock w < deadline;
        \<not> aborted sig (clock w + setTimeoutDelay iv + pollLatency env i);
        pollReply env i = Response st body; st = 403 \<or> st = 404;
        pollLoop env da uc iv deadline sig (Suc i) (answered env da uc iv i w) = (r, w');
        P (Suc i) (answered env da uc iv i w)\<rbrakk> \<Longrightarrow> P i w"
    and Failed: "\<And>i w st body. \<lbrakk>clock w < deadline;
        \<not> aborted sig (clock w + setTimeoutDelay iv + pollLatency env i);
        pollReply env i = Response st body; st \<noteq> 403; st \<noteq> 404; \<not> ok st;
        r = Inl (PollingFailed st); w' = answered env da uc iv i w\<rbrakk> \<Longrightarrow> P i w"
    and Unparsed: "\<And>i w st. \<lbrakk>clock w < deadline;
        \<not> aborted sig (clock w + setTimeoutDelay iv + pollLatency env i);
        pollReply env i = Response st None; ok st;
        r = Inl ParseError; w' = answered env da uc iv i w\<rbrakk> \<Longrightarrow> P i w"
    and Exchange: "\<And>i w st res. \<lbrakk>clock w < deadline;
        \<not> aborted sig (clock w + setTimeoutDelay iv + pollLatency env i);
        pollReply env i = Response st (Some res); ok st;
        exchangeDeviceCodeForTokens env (authorization_code res) (code_verifier res)
          (answered env da uc iv i w) = (r, w')\<rbrakk> \<Longrightarrow> P i w"
  shows "P i w"
  using run
proof (induction "deadline - clock w" arbitrary: i w rule: less_induct)
  case less
  from less.prems show ?case
  proof (cases rule: pollLoop_cases)
    case (Pending st body)
    have "deadline - clock (answered env da uc iv i w) < deadline - clock w"
      using Pending(1) setTimeoutDelay_pos[of iv] by simp
    from less.hyps[OF this Pending(5)] Pending show ?thesis
      by (intro assms(7)[of w i st body])
  qed (auto intro: assms(2-6) assms(8-10))
qed


lemma poll_unfold:
  "pollForDeviceAuthorization env da uc opts w =
     pollLoop env da uc (intervalOf opts) (clock w + timeoutOf opts) (signalOf opts) 0 w"
  by (simp add: pollForDeviceAuthorization_def intervalOf_def timeoutOf_def signalOf_def Let_def)

lemma aborted_Some_iff: "abortedAt s = Some c \<Longrightarrow> aborted (Some s) t \<longleftrightarrow> c \<le> t"
  by (simp add: aborted_def)

lemma iterStart_shift:
  "iterStart env d i t (Suc n) = iterStart env d (Suc i) (t + d + pollLatency env i) n"
  by (induction n) simp_all

lemma polls_Suc_shift:
  "polls env da uc d i t (Suc n) =
     (t + d, DeviceTokenRequest da uc) # polls env da uc d (Suc i) (t + d + pollLatency env i) n"
proof -
  have "[0..<Suc n] = 0 # map Suc [0..<n]"
    by (metis map_Suc_upt upt_conv_Cons zero_less_Suc)
  then show ?thesis
    unfolding polls_def by (simp add: comp_def iterStart_shift del: upt_Suc iterStart.simps(2))
qed

lemma polls_0 [simp]: "polls env da uc d i t 0 = []"
  by (simp add: polls_def)

lemma not_aborted_before: "\<not> aborted sig (t + k) \<Longrightarrow> \<not> aborted sig t"
  using aborted_add by blast

text \<open>The log only grows, and nothing is sent once the signal has fired.\<close>

lemma pollLoop_sent_before_abort:
  assumes "pollLoop env da uc iv deadline sig i w = (r, w')"
  shows "\<exists>new. requests w' = requests w @ new \<and> (\<forall>x \<in> set new. \<not> aborted sig (fst x))"
  using assms
proof (induction rule: pollLoop_run_induct)
  case (InFlight i w s c)
  then show ?case by (simp add: answered_def)
next
  case (Pending i w st body)
  then obtain new where "requests w' = requests (answered env da uc iv i w) @ new"
    "\<forall>x \<in> set new. \<not> aborted sig (fst x)" by blast
  moreover have "\<not> aborted sig (clock w + setTimeoutDelay iv)"
    using Pending(2) by (rule not_aborted_before)
  ultimately show ?case by simp
next
  case (Exchange i w st res)
  have "\<not> aborted sig (clock w + setTimeoutDelay iv)"
    using Exchange(2) by (rule not_aborted_before)
  with Exchange exchange_world[OF Exchange(5)] show ?case by simp
next
  case (NoAnswer i w)
  with not_aborted_before[OF NoAnswer(2)] show ?case by simp
next
  case (Failed i w st body)
  with not_aborted_before[OF Failed(2)] show ?case by simp
next
  case (Unparsed i w st)
  with not_aborted_before[OF Unparsed(2)] show ?case by simp
qed (simp_all add: sleep_def)

lemma requests_issued:
  assumes "pollLoop env da uc iv deadline sig i w = (r, w')"
  shows "requests w' = requests w @ issued w w'"
  using pollLoop_sent_before_abort[OF assms] by (auto simp: issued_def)

lemma issued_not_aborted:
  assumes "pollLoop env da uc iv deadline sig i w = (r, w')" "x \<in> set (issued w w')"
  shows "\<not> aborted sig (fst x)"
  using pollLoop_sent_before_abort[OF assms(1)] assms(2) by (auto simp: issued_def)

text \<open>How long after the signal the run can end.\<close>

lemma pollLoop_end_bound:
  assumes "pollLoop env da uc iv deadline sig i w = (r, w')"
    and "sig = Some s" "abortedAt s = Some c" "c \<le> B" "clock w \<le> B"
  shows "clock w' \<le> B + max (setTimeoutDelay iv) (tokenLatency env)"
  using assms(1,5)
proof (induction rule: pollLoop_run_induct)
  case (Pending i w st body)
  have "clock (answered env da uc iv i w) < c"
    using Pending(2) assms(2,3) by (simp add: aborted_def)
  with assms(4) Pending show ?case by simp
next
  case (Exchange i w st res)
  have "clock (answered env da uc iv i w) < c"
    using Exchange(2) assms(2,3) by (simp add: aborted_def)
  with assms(4) exchange_world[OF Exchange(5)] show ?case by simp
qed (use assms(2-4) in \<open>auto simp: sleep_def aborted_def\<close>)

text \<open>The shape of what a run sends.\<close>

lemma pollLoop_shape:
  assumes "pollLoop env da uc iv deadline sig i w = (r, w')"
  shows "\<exists>n tl. requests w' = requests w @ polls env da uc (setTimeoutDelay iv) i (clock w) n @ tl
           \<and> (tl = [] \<or> (\<exists>t b. tl = [(t, TokenRequest b)]))
           \<and> (\<forall>k<n. iterStart env (setTimeoutDelay iv) i (clock w) k < deadline)"
  using assms
proof (induction rule: pollLoop_run_induct)
  case (TimedOut i w)
  then show ?case by (intro exI[of _ 0] exI[of _ "[]"]) simp
next
  case (Aborted i w s)
  then show ?case by (intro exI[of _ 0] exI[of _ "[]"]) simp
next
  case (Asleep i w s)
  then show ?case by (intro exI[of _ 0] exI[of _ "[]"]) (simp add: sleep_def)
next
  case (InFlight i w s c)
  then show ?case by (intro exI[of _ 1] exI[of _ "[]"]) (simp add: polls_def)
next
  case (NoAnswer i w)
  then show ?case by (intro exI[of _ 1] exI[of _ "[]"]) (simp add: polls_def)
next
  case (Pending i w st body)
  then obtain n tl where n: "requests w' = requests (answered env da uc iv i w)
        @ polls env da uc (setTimeoutDelay iv) (Suc i) (clock (answered env da uc iv i w)) n @ tl"
      "tl = [] \<or> (\<exists>t b. tl = [(t, TokenRequest b)])"
      "\<forall>k<n. iterStart env (setTimeoutDelay iv) (Suc i) (clock (answered env da uc iv i w)) k < deadline"
    by blast
  have "\<forall>k<Suc n. iterStart env (setTimeoutDelay iv) i (clock w) k < deadline"
  proof (intro allI impI)
    fix k assume "k < Suc n"
    show "iterStart env (setTimeoutDelay iv) i (clock w) k < deadline"
    proof (cases k)
      case 0 with Pending(1) show ?thesis by simp
    next
      case (Suc j)
      with \<open>k < Suc n\<close> n(3) show ?thesis
        by (simp add: iterStart_shift del: iterStart.simps(2))
    qed
  qed
  with n(1,2) show ?case
    by (intro exI[of _ "Suc n"] exI[of _ tl]) (simp add: polls_Suc_shift)
next
  case (Failed i w st body)
  then show ?case by (intro exI[of _ 1] exI[of _ "[]"]) (simp add: polls_def)
next
  case (Unparsed i w st)
  then show ?case by (intro exI[of _ 1] exI[of _ "[]"]) (simp add: polls_def)
next
  case (Exchange i w st res)
  from exchange_world[OF Exchange(5)] Exchange(1) show ?case
    by (intro exI[of _ 1] exI[of _ "[(clock (answered env da uc iv i w), TokenRequest
          [(''grant_type'', ''authorization_code''),
                  (''client_id'', clientId), (''code'', authorization_code res),
                  (''redirect_uri'', deviceCallbackRedirectUri), (''code_verifier'', code_verifier res)])]"])
       (simp add: polls_def)
qed

text \<open>Runs that get only pending answers.\<close>

lemma ok_not_pending: "ok st \<Longrightarrow> st \<noteq> 403 \<and> st \<noteq> 404"
  by (simp add: ok_def)

lemma pollLoop_all_pending:
  assumes "pollLoop env da uc iv deadline sig i w = (r, w')"
    and "\<forall>k. isPending (pollReply env k)"
  shows "(r = Inl TimedOut \<and> deadline \<le> clock w')
       \<or> (\<exists>s. sig = Some s \<and> r = Inl (reason s) \<and> aborted sig (clock w'))"
  using assms(1)
proof (induction rule: pollLoop_run_induct)
  case (TimedOut i w)
  then show ?case by simp
next
  case (Aborted i w s)
  then show ?case by simp
next
  case (Asleep i w s)
  then show ?case by (simp add: sleep_def)
next
  case (InFlight i w s c)
  then show ?case by (simp add: aborted_def)
next
  case (NoAnswer i w)
  with assms(2)[rule_format, of i] show ?case by simp
next
  case (Pending i w st body)
  then show ?case by simp
next
  case (Failed i w st body)
  with assms(2)[rule_format, of i] show ?case by simp
next
  case (Unparsed i w st)
  with assms(2)[rule_format, of i] ok_not_pending[of st] show ?case by simp
next
  case (Exchange i w st res)
  with assms(2)[rule_format, of i] ok_not_pending[of st] show ?case by simp
qed


lemma throwIfAborted_Inr: "\<not> aborted sig (clock w) \<Longrightarrow> throwIfAborted sig w = Inr ()"
  by (auto simp: throwIfAborted_def split: option.splits)

lemma fetch_delivers:
  "\<not> aborted sig (clock w + latency) \<Longrightarrow>
   fetch sig req (Response st body) latency w =
     (Inr (st, body), w\<lparr>clock := clock w + latency, requests := requests w @ [(clock w, req)]\<rparr>)"
  by (auto simp: fetch_def Let_def throwIfAborted_def aborted_def
      split: sum.splits option.splits AbortSignal.splits reply.splits if_splits)

lemma pollLoop_answered:
  assumes "clock w < deadline"
    and "\<not> aborted sig (clock w + setTimeoutDelay iv + pollLatency env i)"
    and "pollReply env i = Response st body"
  shows "pollLoop env da uc iv deadline sig i w =
     (if st = 403 \<or> st = 404 then
        pollLoop env da uc iv deadline sig (Suc i) (answered env da uc iv i w)
      else if \<not> ok st then (Inl (PollingFailed st), answered env da uc iv i w)
      else (case body of
              None \<Rightarrow> (Inl ParseError, answered env da uc iv i w)
            | Some res \<Rightarrow> exchangeDeviceCodeForTokens env (authorization_code res) (code_verifier res)
                            (answered env da uc iv i w)))"
proof -
  have na: "\<not> aborted sig (clock w)"
    using assms(2) not_aborted_before[of sig "clock w" "setTimeoutDelay iv + pollLatency env i"]
    by (simp add: add.assoc)
  have f: "fetch sig (DeviceTokenRequest da uc) (pollReply env i) (pollLatency env i) (sleep iv w) =
      (Inr (st, body), answered env da uc iv i w)"
    unfolding assms(3)
    using assms(2) fetch_delivers[where sig=sig and latency="pollLatency env i" and w="sleep iv w"]
    by (simp add: sleep_def answered_def)
  show ?thesis
    by (subst pollLoop.simps) (simp add: assms(1) throwIfAborted_Inr[OF na] f)
qed

lemma iterStart_ge: "t \<le> iterStart env d i t n"
  by (induction n) simp_all

lemma world_eq: "\<lparr>clock = clock w, requests = requests w\<rparr> = (w::world)"
  by simp

lemma pollLoop_pending_prefix:
  assumes "\<forall>k<n. isPending (pollReply env (i + k))"
    and "\<forall>k<n. iterStart env (setTimeoutDelay iv) i (clock w) k < deadline"
    and "\<not> aborted sig (iterStart env (setTimeoutDelay iv) i (clock w) n)"
  shows "pollLoop env da uc iv deadline sig i w =
         pollLoop env da uc iv deadline sig (i + n)
           \<lparr>clock = iterStart env (setTimeoutDelay iv) i (clock w) n,
            requests = requests w @ polls env da uc (setTimeoutDelay iv) i (clock w) n\<rparr>"
  using assms
proof (induction n arbitrary: i w)
  case 0
  then show ?case by (simp add: world_eq)
next
  case (Suc n)
  let ?d = "setTimeoutDelay iv"
  let ?w1 = "answered env da uc iv i w"
  have pend: "isPending (pollReply env i)" using Suc.prems(1)[rule_format, of 0] by simp
  then obtain st body where rep: "pollReply env i = Response st body" and st: "st = 403 \<or> st = 404"
    by (cases "pollReply env i") auto
  have lt: "clock w < deadline" using Suc.prems(2)[rule_format, of 0] by simp
  have sh: "iterStart env ?d i (clock w) (Suc n) = iterStart env ?d (Suc i) (clock ?w1) n"
    by (simp add: iterStart_shift del: iterStart.simps(2))
  have "clock ?w1 \<le> iterStart env ?d (Suc i) (clock ?w1) n" by (rule iterStart_ge)
  with Suc.prems(3) sh have na: "\<not> aborted sig (clock w + ?d + pollLatency env i)"
    using aborted_mono[of sig "clock ?w1"] by auto
  have step: "pollLoop env da uc iv deadline sig i w = pollLoop env da uc iv deadline sig (Suc i) ?w1"
    using pollLoop_answered[OF lt na rep] st by simp
  have 1: "\<forall>k<n. isPending (pollReply env (Suc i + k))"
    using Suc.prems(1) by (metis Suc_less_eq add_Suc_shift)
  have 2: "\<forall>k<n. iterStart env ?d (Suc i) (clock ?w1) k < deadline"
  proof (intro allI impI)
    fix k assume "k < n"
    then have "Suc k < Suc n" by simp
    then have "iterStart env ?d i (clock w) (Suc k) < deadline" using Suc.prems(2) by blast
    then show "iterStart env ?d (Suc i) (clock ?w1) k < deadline"
      by (simp add: iterStart_shift del: iterStart.simps(2))
  qed
  have 3: "\<not> aborted sig (iterStart env ?d (Suc i) (clock ?w1) n)"
    using Suc.prems(3) sh by simp
  show ?case
    unfolding step Suc.IH[OF 1 2 3]
    by (simp add: polls_Suc_shift iterStart_shift del: iterStart.simps(2))
qed

lemma issued_answered:
  assumes "pollLoop env da uc iv deadline sig (Suc i) (answered env da uc iv i w) = (r, w')"
  shows "issued w w' = (clock w + setTimeoutDelay iv, DeviceTokenRequest da uc)
                        # issued (answered env da uc iv i w) w'"
proof -
  from pollLoop_sent_before_abort[OF assms] obtain new where
    "requests w' = requests (answered env da uc iv i w) @ new" by blast
  then show ?thesis by (simp add: issued_def)
qed

lemma pollLoop_cancelled:
  assumes "pollLoop env da uc iv deadline sig i w = (r, w')"
    and "sig = Some s" and "aborted sig (clock w')"
    and "clock w < deadline \<or> \<not> aborted sig (clock w)"
    and "\<forall>t b. (t, TokenRequest b) \<notin> set (issued w w')"
  shows "r = Inl (reason s)"
  using assms(1,4,5)
proof (induction rule: pollLoop_run_induct)
  case (TimedOut i w)
  with assms(3) show ?case by simp
next
  case (Aborted i w s)
  with assms(2) show ?case by simp
next
  case (Asleep i w s)
  with assms(2) show ?case by simp
next
  case (InFlight i w s c)
  with assms(2) show ?case by simp
next
  case (NoAnswer i w)
  with assms(3) show ?case by simp
next
  case (Pending i w st body)
  have "\<forall>t b. (t, TokenRequest b) \<notin> set (issued (answered env da uc iv i w) w')"
    using Pending.prems(2) issued_answered[OF Pending.hyps(5)] by simp
  moreover have "\<not> aborted sig (clock (answered env da uc iv i w))"
    using Pending.hyps(2) by simp
  ultimately show ?case using Pending.IH by blast
next
  case (Failed i w st body)
  with assms(3) show ?case by simp
next
  case (Unparsed i w st)
  with assms(3) show ?case by simp
next
  case (Exchange i w st res)
  from exchange_world[OF Exchange.hyps(5)] have "issued w w' \<noteq> [] \<and> (\<exists>t b. last (issued w w') = (t, TokenRequest b))"
    by (simp add: issued_def)
  with Exchange.prems(2) show ?case
    by (metis last_in_set)
qed


subsection \<open>Requests and outcomes of the single calls\<close>

lemma exchange_eq:
  "exchangeDeviceCodeForTokens env ac cv w = postTokenRequest env (exchangeBody ac cv) w"
  by (simp add: exchangeDeviceCodeForTokens_def exchangeBody_def)

lemma issued_self [simp]: "issued w w = []"
  by (simp add: issued_def)

lemma issued_append:
  "requests w' = requests w @ new \<Longrightarrow> issued w w' = new"
  by (simp add: issued_def)

lemma postTokenRequest_requests:
  "requests (snd (postTokenRequest env body w)) = requests w @ [(clock w, TokenRequest body)]"
  using postTokenRequest_world[of env body w] by (cases "postTokenRequest env body w") simp

lemma postTokenRequest_outcome:
  "fst (postTokenRequest env body w) =
     (case tokenReply env body of
        NetworkFailure \<Rightarrow> Inl FetchFailed
      | Response st parsed \<Rightarrow>
          if \<not> ok st then Inl (ExchangeFailed st)
          else (case parsed of None \<Rightarrow> Inl MalformedResponse | Some c \<Rightarrow> Inr c))"
  by (simp add: postTokenRequest_def fetch_def throwIfAborted_def Let_def
      split: reply.splits option.splits)

lemma iterStart_mono: "k \<le> n \<Longrightarrow> iterStart env d i t k \<le> iterStart env d i t n"
proof (induction n)
  case 0
  then show ?case by simp
next
  case (Suc n)
  then show ?case by (cases "k = Suc n") (simp_all add: le_Suc_eq)
qed

lemma map_snd_polls: "map snd (polls env da uc d i t n) = replicate n (DeviceTokenRequest da uc)"
  by (simp add: polls_def comp_def map_replicate_const)

lemma polls_Suc:
  "polls env da uc d i t (Suc n) =
     polls env da uc d i t n @ [(iterStart env d i t n + d, DeviceTokenRequest da uc)]"
  by (simp add: polls_def)

lemma fetch_requests:
  "\<not> aborted sig (clock w) \<Longrightarrow>
     requests (snd (fetch sig req rep latency w)) = requests w @ [(clock w, req)]"
  by (auto simp: fetch_def Let_def throwIfAborted_def aborted_def
      split: sum.splits option.splits AbortSignal.splits reply.splits if_splits)

lemma requestDeviceCode_requests:
  "requests (snd (requestDeviceCode env w)) = requests w @ [(clock w, DeviceCodeRequest clientId)]"
proof -
  let ?sig = "Some (AbortSignal (Some (clock w + 30000)) TimeoutError)"
  have na: "\<not> aborted ?sig (clock w)" by (simp add: aborted_def)
  have "snd (requestDeviceCode env w) =
        snd (fetch ?sig (DeviceCodeRequest clientId) (deviceCodeReply env) (deviceCodeLatency env) w)"
    by (simp add: requestDeviceCode_def split: prod.splits sum.splits option.splits)
  with fetch_requests[OF na] show ?thesis by simp
qed

lemma requestDeviceCode_outcome:
  "fst (requestDeviceCode env w) =
     (if 30000 \<le> deviceCodeLatency env then Inl TimeoutError
      else case deviceCodeReply env of
             NetworkFailure \<Rightarrow> Inl FetchFailed
           | Response st body \<Rightarrow>
               if st = 404 then Inl NotEnabled
               else if \<not> ok st then Inl (DeviceCodeRequestFailed st)
               else (case body of None \<Rightarrow> Inl ParseError | Some r \<Rightarrow> Inr r))"
  by (simp add: requestDeviceCode_def fetch_def throwIfAborted_def aborted_def Let_def
      split: reply.splits option.splits)

lemma poll_success_run:
  assumes pend: "\<forall>k<n. isPending (pollReply env k)"
    and succ: "pollReply env n = Response st (Some res)" "ok st"
    and intime: "iterStart env (setTimeoutDelay (intervalOf opts)) 0 (clock w) n < clock w + timeoutOf opts"
    and nosig: "\<not> aborted (signalOf opts) (iterStart env (setTimeoutDelay (intervalOf opts)) 0 (clock w) (Suc n))"
  shows "pollForDeviceAuthorization env da uc opts w =
      postTokenRequest env (exchangeBody (authorization_code res) (code_verifier res))
        (answered env da uc (intervalOf opts) n
           \<lparr>clock = iterStart env (setTimeoutDelay (intervalOf opts)) 0 (clock w) n,
            requests = requests w @ polls env da uc (setTimeoutDelay (intervalOf opts)) 0 (clock w) n\<rparr>)"
proof -
  let ?d = "setTimeoutDelay (intervalOf opts)"
  let ?dl = "clock w + timeoutOf opts"
  let ?W = "\<lparr>clock = iterStart env ?d 0 (clock w) n,
             requests = requests w @ polls env da uc ?d 0 (clock w) n\<rparr>"
  have 1: "\<forall>k<n. isPending (pollReply env (0 + k))" using pend by simp
  have 2: "\<forall>k<n. iterStart env ?d 0 (clock w) k < ?dl"
    using intime iterStart_mono[of _ n env ?d 0 "clock w"] by (meson le_less_trans less_imp_le)
  have 3: "\<not> aborted (signalOf opts) (iterStart env ?d 0 (clock w) n)"
    using nosig aborted_mono[of "signalOf opts" "iterStart env ?d 0 (clock w) n"
        "iterStart env ?d 0 (clock w) (Suc n)"] by auto
  have pre: "pollLoop env da uc (intervalOf opts) ?dl (signalOf opts) 0 w =
             pollLoop env da uc (intervalOf opts) ?dl (signalOf opts) n ?W"
    using pollLoop_pending_prefix[OF 1 2 3, of da uc] by simp
  have lt: "clock ?W < ?dl" using intime by simp
  have na: "\<not> aborted (signalOf opts) (clock ?W + ?d + pollLatency env n)"
    using nosig by simp
  have last: "pollLoop env da uc (intervalOf opts) ?dl (signalOf opts) n ?W =
      postTokenRequest env (exchangeBody (authorization_code res) (code_verifier res))
        (answered env da uc (intervalOf opts) n ?W)"
    using pollLoop_answered[OF lt na succ(1), of da uc] succ(2) ok_not_pending[OF succ(2)]
    by (simp add: exchange_eq)
  show ?thesis
    by (simp only: poll_unfold pre last)
qed

lemma iterStart_const:
  "\<forall>k. pollLatency env k = L \<Longrightarrow> iterStart env d i t n = t + n * (d + L)"
  by (induction n) simp_all

lemma poll_all_pending:
  assumes "\<forall>k. isPending (pollReply env k)"
  shows "(fst (pollForDeviceAuthorization env da uc opts w) = Inl TimedOut
          \<and> clock w + timeoutOf opts \<le> clock (snd (pollForDeviceAuthorization env da uc opts w)))
       \<or> (\<exists>s. signalOf opts = Some s
            \<and> fst (pollForDeviceAuthorization env da uc opts w) = Inl (reason s)
            \<and> aborted (signalOf opts) (clock (snd (pollForDeviceAuthorization env da uc opts w))))"
proof -
  obtain r w' where run: "pollLoop env da uc (intervalOf opts) (clock w + timeoutOf opts) (signalOf opts) 0 w = (r, w')"
    by (cases "pollLoop env da uc (intervalOf opts) (clock w + timeoutOf opts) (signalOf opts) 0 w")
  from pollLoop_all_pending[OF run assms] show ?thesis
    by (simp add: poll_unfold run)
qed

lemma issued_answered_self:
  "issued w (answered env da uc iv i w) = [(clock w + setTimeoutDelay iv, DeviceTokenRequest da uc)]"
  by (simp add: issued_def)

lemma pollLoop_run_ex:
  "\<exists>r w'. pollLoop env da uc iv deadline sig i w = (r, w')"
  by (cases "pollLoop env da uc iv deadline sig i w") simp

lemma wait_world:
  "deviceCodeAbortController m = Some a \<Longrightarrow>
     snd (snd (waitForDeviceAuthorization env fires m w da uc)) =
     snd (pollForDeviceAuthorization env da uc
            (Some \<lparr>intervalMs = None, timeoutMs = None, signal = Some (pendingSignal m fires a)\<rparr>) w)"
  by (simp add: waitForDeviceAuthorization_def split: prod.splits sum.splits)

lemma postTokenRequest_clock:
  "clock (snd (postTokenRequest env body w)) = clock w + tokenLatency env"
  using postTokenRequest_world[of env body w] by (cases "postTokenRequest env body w") simp

lemma poll_sent_before_signal:
  assumes "signalOf opts = Some s" and "abortedAt s = Some c"
    and "x \<in> set (issued w (snd (pollForDeviceAuthorization env da uc opts w)))"
  shows "fst x < c"
proof -
  obtain r w' where run: "pollLoop env da uc (intervalOf opts) (clock w + timeoutOf opts) (signalOf opts) 0 w = (r, w')"
    using pollLoop_run_ex by blast
  from assms(3) have "x \<in> set (issued w w')" by (simp add: poll_unfold run)
  from issued_not_aborted[OF run this] assms(1,2) show ?thesis by (simp add: aborted_def)
qed

lemma credentials_cancelDeviceCodeFlow [simp]:
  "credentials (cancelDeviceCodeFlow m w) = credentials m"
  by (simp add: cancelDeviceCodeFlow_def split: option.splits)

lemma field_cancelDeviceCodeFlow [simp]:
  "deviceCodeAbortController (cancelDeviceCodeFlow m w) = None"
  by (simp add: cancelDeviceCodeFlow_def split: option.splits)

lemma cancelDeviceCodeFlow_again [simp]:
  "cancelDeviceCodeFlow (cancelDeviceCodeFlow m w) w2 = cancelDeviceCodeFlow m w"
  by (simp add: cancelDeviceCodeFlow_def split: option.splits)

lemma credentials_cancelledMeanwhile [simp]:
  "credentials (cancelledMeanwhile m fires w') = credentials m"
  by (simp add: cancelledMeanwhile_def split: option.splits)

text \<open>A run with only pending answers and no signal ends at the first loop check at or after the deadline.\<close>

lemma pollLoop_expires:
  assumes run: "pollLoop env da uc iv deadline sig i w = (r, w')"
    and pend: "\<forall>k. isPending (pollReply env k)"
    and never: "\<forall>t. \<not> aborted sig t"
  shows "\<exists>n. (\<forall>k<n. iterStart env (setTimeoutDelay iv) i (clock w) k < deadline)
           \<and> deadline \<le> iterStart env (setTimeoutDelay iv) i (clock w) n
           \<and> r = Inl TimedOut
           \<and> w' = \<lparr>clock = iterStart env (setTimeoutDelay iv) i (clock w) n,
                    requests = requests w @ polls env da uc (setTimeoutDelay iv) i (clock w) n\<rparr>"
  using run
proof (induction rule: pollLoop_run_induct)
  case (TimedOut i w)
  then show ?case by (intro exI[of _ 0]) simp
next
  case (Aborted i w s)
  with never show ?case by simp
next
  case (Asleep i w s)
  with never show ?case by simp
next
  case (InFlight i w s c)
  with never[rule_format, of c] show ?case by (simp add: aborted_def)
next
  case (NoAnswer i w)
  with pend[rule_format, of i] show ?case by simp
next
  case (Pending i w st body)
  let ?d = "setTimeoutDelay iv"
  from Pending.IH obtain n where n:
    "\<forall>k<n. iterStart env ?d (Suc i) (clock (answered env da uc iv i w)) k < deadline"
    "deadline \<le> iterStart env ?d (Suc i) (clock (answered env da uc iv i w)) n"
    "r = Inl TimedOut"
    "w' = \<lparr>clock = iterStart env ?d (Suc i) (clock (answered env da uc iv i w)) n,
           requests = requests (answered env da uc iv i w)
             @ polls env da uc ?d (Suc i) (clock (answered env da uc iv i w)) n\<rparr>"
    by blast
  have 1: "\<forall>k<Suc n. iterStart env ?d i (clock w) k < deadline"
  proof (intro allI impI)
    fix k assume "k < Suc n"
    show "iterStart env ?d i (clock w) k < deadline"
    proof (cases k)
      case 0 with Pending.hyps(1) show ?thesis by simp
    next
      case (Suc j)
      with \<open>k < Suc n\<close> n(1) show ?thesis
        by (simp add: iterStart_shift del: iterStart.simps(2))
    qed
  qed
  have 2: "deadline \<le> iterStart env ?d i (clock w) (Suc n)"
    using n(2) by (simp add: iterStart_shift del: iterStart.simps(2))
  have 3: "w' = \<lparr>clock = iterStart env ?d i (clock w) (Suc n),
           requests = requests w @ polls env da uc ?d i (clock w) (Suc n)\<rparr>"
    using n(4) by (simp add: iterStart_shift polls_Suc_shift del: iterStart.simps(2))
  from 1 2 3 n(3) show ?case by blast
next
  case (Failed i w st body)
  with pend[rule_format, of i] show ?case by simp
next
  case (Unparsed i w st)
  with pend[rule_format, of i] ok_not_pending[of st] show ?case by simp
next
  case (Exchange i w st res)
  with pend[rule_format, of i] ok_not_pending[of st] show ?case by simp
qed

text \<open>Nothing is sent after the end of a run, and a run does not end before it starts.\<close>

lemma pollLoop_sent_by_end:
  assumes "pollLoop env da uc iv deadline sig i w = (r, w')"
  shows "clock w \<le> clock w' \<and> (\<forall>x \<in> set (issued w w'). fst x \<le> clock w')"
  using assms
proof (induction rule: pollLoop_run_induct)
  case (InFlight i w s c)
  then have "clock w + setTimeoutDelay iv < c" by (simp add: aborted_def)
  with InFlight show ?case by (simp add: issued_def)
next
  case (Pending i w st body)
  with issued_answered[OF Pending.hyps(5)] show ?case by simp
next
  case (Exchange i w st res)
  from exchange_world[OF Exchange.hyps(5)] show ?case by (simp add: issued_def)
qed (simp_all add: sleep_def issued_def)

text \<open>A run ends at once or no later than one iteration after the deadline.\<close>

lemma pollLoop_end_by:
  assumes "pollLoop env da uc iv deadline sig i w = (r, w')"
  shows "clock w' = clock w
       \<or> (\<exists>j. clock w' \<le> deadline + setTimeoutDelay iv + pollLatency env j + tokenLatency env)"
  using assms
proof (induction rule: pollLoop_run_induct)
  case (Asleep i w s)
  then show ?case by (simp add: sleep_def)
next
  case (InFlight i w s c)
  then have "clock w' \<le> deadline + setTimeoutDelay iv + pollLatency env i + tokenLatency env" by simp
  then show ?case by blast
next
  case (NoAnswer i w)
  then have "clock w' \<le> deadline + setTimeoutDelay iv + pollLatency env i + tokenLatency env" by simp
  then show ?case by blast
next
  case (Pending i w st body)
  from Pending.IH show ?case
  proof
    assume "clock w' = clock (answered env da uc iv i w)"
    with Pending.hyps(1)
    have "clock w' \<le> deadline + setTimeoutDelay iv + pollLatency env i + tokenLatency env" by simp
    then show ?thesis by blast
  qed blast
next
  case (Failed i w st body)
  then have "clock w' \<le> deadline + setTimeoutDelay iv + pollLatency env i + tokenLatency env" by simp
  then show ?case by blast
next
  case (Unparsed i w st)
  then have "clock w' \<le> deadline + setTimeoutDelay iv + pollLatency env i + tokenLatency env" by simp
  then show ?case by blast
next
  case (Exchange i w st res)
  from exchange_world[OF Exchange.hyps(5)] Exchange.hyps(1)
  have "clock w' \<le> deadline + setTimeoutDelay iv + pollLatency env i + tokenLatency env" by simp
  then show ?case by blast
qed simp_all

lemma poll_timeout_0:
  "timeoutOf opts = 0 \<Longrightarrow> pollForDeviceAuthorization env da uc opts w = (Inl TimedOut, w)"
  by (simp add: poll_unfold pollLoop.simps)

text \<open>
  Starting a flow while a live controller is held: the controller is aborted first, and a
  pending wait that holds its signal sends nothing from then on.
\<close>

lemma startDeviceCodeFlow_aborts_held_controller:
  assumes held: "deviceCodeAbortController m = Some a"
    and live: "controllers m a = Some (AbortSignal None r0)"
    and alloc: "a < allocated m"
  shows "startDeviceCodeFlow env m w = startDeviceCodeFlow env (cancelDeviceCodeFlow m w) w
       \<and> controllers (fst (snd (startDeviceCodeFlow env m w))) a
           = Some (AbortSignal (Some (clock w)) AbortError)
       \<and> deviceCodeAbortController (fst (snd (startDeviceCodeFlow env m w))) = Some (allocated m)
       \<and> controllers (fst (snd (startDeviceCodeFlow env m w))) (allocated m)
           = Some (AbortSignal None AbortError)
       \<and> issued w (snd (snd (startDeviceCodeFlow env m w))) = [(clock w, DeviceCodeRequest clientId)]
       \<and> (\<forall>x \<in> set (issued w0 (snd (snd (waitForDeviceAuthorization env (Some (clock w)) m w0 da uc)))).
             fst x < clock w)"
proof -
  have 1: "startDeviceCodeFlow env m w = startDeviceCodeFlow env (cancelDeviceCodeFlow m w) w"
    by (simp add: startDeviceCodeFlow_def cancelDeviceCodeFlow_def Let_def split: option.splits)
  have 2: "controllers (fst (snd (startDeviceCodeFlow env m w))) a
           = Some (AbortSignal (Some (clock w)) AbortError)"
    using held live alloc
    by (simp add: startDeviceCodeFlow_def cancelDeviceCodeFlow_def abort_def Let_def split: prod.splits)
  have 3: "deviceCodeAbortController (fst (snd (startDeviceCodeFlow env m w))) = Some (allocated m)"
    using held
    by (simp add: startDeviceCodeFlow_def cancelDeviceCodeFlow_def Let_def split: prod.splits)
  have 4: "controllers (fst (snd (startDeviceCodeFlow env m w))) (allocated m)
           = Some (AbortSignal None AbortError)"
    using held
    by (simp add: startDeviceCodeFlow_def cancelDeviceCodeFlow_def Let_def split: prod.splits)
  have "snd (snd (startDeviceCodeFlow env m w)) = snd (requestDeviceCode env w)"
    by (simp add: startDeviceCodeFlow_def Let_def split: prod.splits)
  then have 5: "issued w (snd (snd (startDeviceCodeFlow env m w))) = [(clock w, DeviceCodeRequest clientId)]"
    using issued_append[OF requestDeviceCode_requests] by simp
  have sig: "pendingSignal m (Some (clock w)) a = AbortSignal (Some (clock w)) AbortError"
    using live by (simp add: pendingSignal_def)
  have 6: "\<forall>x \<in> set (issued w0 (snd (snd (waitForDeviceAuthorization env (Some (clock w)) m w0 da uc)))).
             fst x < clock w"
  proof
    fix x
    assume "x \<in> set (issued w0 (snd (snd (waitForDeviceAuthorization env (Some (clock w)) m w0 da uc))))"
    then have "x \<in> set (issued w0 (snd (pollForDeviceAuthorization env da uc
        (Some \<lparr>intervalMs = None, timeoutMs = None,
               signal = Some (AbortSignal (Some (clock w)) AbortError)\<rparr>) w0)))"
      by (simp add: wait_world[OF held] sig)
    then show "fst x < clock w"
      using poll_sent_before_signal[of "Some \<lparr>intervalMs = None, timeoutMs = None,
               signal = Some (AbortSignal (Some (clock w)) AbortError)\<rparr>"
          "AbortSignal (Some (clock w)) AbortError" "clock w" x w0 env da uc]
      by (simp add: signalOf_def)
  qed
  from 1 2 3 4 5 6 show ?thesis by blast
qed

subsection \<open>Evaluating the scenarios\<close>

lemmas scenario_defs =
  world0_def creds0_def payload0_def scenarioEnv_def exchangeFailsEnv_def providerIntervalEnv_def
  pendingEnv_def notEnabledEnv_def lateSuccessEnv_def cancelledAt_def signedInManager_def
  initialManager_def slowCodeEnv_def firstStart_def secondStart_def deviceCodeFailsEnv_def
  serverErrorEnv_def

lemmas run_defs =
  pollForDeviceAuthorization_def pollLoop.simps fetch_def throwIfAborted_def aborted_def
  sleep_def setTimeoutDelay_def pollingIntervalMs_def timeoutMs_default_def ok_def
  exchangeDeviceCodeForTokens_def postTokenRequest_def requestDeviceCode_def
  waitForDeviceAuthorization_def startDeviceCodeFlow_def cancelDeviceCodeFlow_def abort_def
  saveCredentials_def pendingSignal_def cancelledMeanwhile_def startOpenAiCodexAuth_def clientId_def
  deviceCallbackRedirectUri_def Let_def issued_def

section \<open>The properties\<close>

text \<open>
  C1, amended. Let the signal passed to \<^verbatim>\<open>pollForDeviceAuthorization\<close> fire at time c. Every
  request of the call (poll or token exchange) is sent strictly before c: nothing is sent once
  the signal has fired. The call itself ends no later than one timer delay (the polling
  interval) after the later of c and the start of the call or, when the token request is
  already on its way, than the latency of that exchange: the sleep between polls is a plain
  timer that the signal does not interrupt, and the token request carries no signal.
\<close>

theorem cancel_sends_nothing_more:
  assumes "signalOf opts = Some s" and "abortedAt s = Some c"
  shows "requests (snd (pollForDeviceAuthorization env da uc opts w))
           = requests w @ issued w (snd (pollForDeviceAuthorization env da uc opts w))
       \<and> (\<forall>x \<in> set (issued w (snd (pollForDeviceAuthorization env da uc opts w))). fst x < c)
       \<and> clock (snd (pollForDeviceAuthorization env da uc opts w))
           \<le> max c (clock w) + max (setTimeoutDelay (intervalOf opts)) (tokenLatency env)"
proof -
  obtain r w' where run: "pollLoop env da uc (intervalOf opts) (clock w + timeoutOf opts) (signalOf opts) 0 w = (r, w')"
    using pollLoop_run_ex by blast
  have 1: "requests w' = requests w @ issued w w'"
    by (rule requests_issued[OF run])
  have 2: "\<forall>x \<in> set (issued w w'). fst x < c"
  proof
    fix x assume "x \<in> set (issued w w')"
    from issued_not_aborted[OF run this] assms show "fst x < c"
      by (simp add: aborted_def)
  qed
  have 3: "clock w' \<le> max c (clock w) + max (setTimeoutDelay (intervalOf opts)) (tokenLatency env)"
    by (rule pollLoop_end_bound[OF run assms]) simp_all
  from 1 2 3 show ?thesis by (simp add: poll_unfold run)
qed

theorem cancel_sends_nothing_more_witness:
  "signalOf (Some (cancelledAt None 7000)) = Some (AbortSignal (Some 7000) AbortError)
   \<and> pollForDeviceAuthorization pendingEnv ''d1'' ''ABCD-EFGH'' (Some (cancelledAt None 7000)) world0
       = (Inl AbortError, \<lparr>clock = 10100, requests = [(5000, DeviceTokenRequest ''d1'' ''ABCD-EFGH'')]\<rparr>)
   \<and> list_all (\<lambda>x. fst x < 7000)
        (issued world0 (snd (pollForDeviceAuthorization pendingEnv ''d1'' ''ABCD-EFGH''
                               (Some (cancelledAt None 7000)) world0)))
   \<and> clock (snd (pollForDeviceAuthorization pendingEnv ''d1'' ''ABCD-EFGH'' (Some (cancelledAt None 7000)) world0))
       \<le> 7000 + 5000"
proof -
  have h: "signalOf (Some (cancelledAt None 7000)) = Some (AbortSignal (Some 7000) AbortError)"
    by (simp add: signalOf_def cancelledAt_def)
  have a: "abortedAt (AbortSignal (Some 7000) AbortError) = Some 7000" by simp
  have e: "pollForDeviceAuthorization pendingEnv ''d1'' ''ABCD-EFGH'' (Some (cancelledAt None 7000)) world0
       = (Inl AbortError, \<lparr>clock = 10100, requests = [(5000, DeviceTokenRequest ''d1'' ''ABCD-EFGH'')]\<rparr>)"
    by (simp add: scenario_defs run_defs)
  from cancel_sends_nothing_more[OF h a, of pendingEnv "''d1''" "''ABCD-EFGH''" world0]
  have "(\<forall>x \<in> set (issued world0 (snd (pollForDeviceAuthorization pendingEnv ''d1'' ''ABCD-EFGH''
                                        (Some (cancelledAt None 7000)) world0))). fst x < 7000)
    \<and> clock (snd (pollForDeviceAuthorization pendingEnv ''d1'' ''ABCD-EFGH'' (Some (cancelledAt None 7000)) world0))
       \<le> 7000 + 5000"
    by (simp add: world0_def intervalOf_def cancelledAt_def pollingIntervalMs_def setTimeoutDelay_def
          pendingEnv_def scenarioEnv_def)
  with h e show ?thesis by (simp only: list_all_iff) blast
qed

theorem cancel_during_sleep_counterexample:
  "pollForDeviceAuthorization pendingEnv ''d1'' ''ABCD-EFGH'' (Some (cancelledAt None 1)) world0
     = (Inl AbortError, \<lparr>clock = 5000, requests = []\<rparr>)
   \<and> pollForDeviceAuthorization pendingEnv ''d1'' ''ABCD-EFGH'' (Some (cancelledAt (Some 60000) 1)) world0
     = (Inl AbortError, \<lparr>clock = 60000, requests = []\<rparr>)"
  by (simp add: scenario_defs run_defs)

text \<open>
  C2, amended. The requests of a call of \<^verbatim>\<open>pollForDeviceAuthorization\<close> are polls number 0 to
  n - 1 and then at most one token request. Poll 0 is sent one timer delay after the call
  starts and each later poll one timer delay after the answer to the poll before it arrived
  (\<open>iterStart\<close>), and no poll belongs to an iteration begun at or after the start time plus the
  timeout. The timer delay is \<^verbatim>\<open>options.intervalMs\<close> when it is supplied (and lies between 1 and
  2147483647) and 5000 ms otherwise; the timeout is \<^verbatim>\<open>options.timeoutMs\<close> when it is supplied and
  15 minutes otherwise. \<^verbatim>\<open>waitForDeviceAuthorization\<close> passes the signal and neither of the two.
\<close>

theorem poll_schedule:
  "(\<exists>n tl. issued w (snd (pollForDeviceAuthorization env da uc opts w))
              = polls env da uc (setTimeoutDelay (intervalOf opts)) 0 (clock w) n @ tl
       \<and> (tl = [] \<or> (\<exists>t b. tl = [(t, TokenRequest b)]))
       \<and> (\<forall>k<n. iterStart env (setTimeoutDelay (intervalOf opts)) 0 (clock w) k
                   < clock w + timeoutOf opts))
   \<and> (Option.bind opts intervalMs = Some ms \<and> 1 \<le> ms \<and> ms \<le> 2147483647
        \<longrightarrow> setTimeoutDelay (intervalOf opts) = ms)
   \<and> (Option.bind opts intervalMs = None \<longrightarrow> setTimeoutDelay (intervalOf opts) = 5000)
   \<and> (Option.bind opts timeoutMs = Some ms \<longrightarrow> timeoutOf opts = ms)
   \<and> (Option.bind opts timeoutMs = None \<longrightarrow> timeoutOf opts = 900000)
   \<and> (deviceCodeAbortController m = Some a \<longrightarrow>
        snd (snd (waitForDeviceAuthorization env fires m w da uc)) =
        snd (pollForDeviceAuthorization env da uc
               (Some \<lparr>intervalMs = None, timeoutMs = None, signal = Some (pendingSignal m fires a)\<rparr>) w))"
proof -
  obtain r w' where run: "pollLoop env da uc (intervalOf opts) (clock w + timeoutOf opts) (signalOf opts) 0 w = (r, w')"
    using pollLoop_run_ex by blast
  from pollLoop_shape[OF run] obtain n tl where
    "requests w' = requests w @ polls env da uc (setTimeoutDelay (intervalOf opts)) 0 (clock w) n @ tl"
    "tl = [] \<or> (\<exists>t b. tl = [(t, TokenRequest b)])"
    "\<forall>k<n. iterStart env (setTimeoutDelay (intervalOf opts)) 0 (clock w) k < clock w + timeoutOf opts"
    by blast
  with issued_append[OF this(1)]
  have 1: "\<exists>n tl. issued w (snd (pollForDeviceAuthorization env da uc opts w))
              = polls env da uc (setTimeoutDelay (intervalOf opts)) 0 (clock w) n @ tl
       \<and> (tl = [] \<or> (\<exists>t b. tl = [(t, TokenRequest b)]))
       \<and> (\<forall>k<n. iterStart env (setTimeoutDelay (intervalOf opts)) 0 (clock w) k
                   < clock w + timeoutOf opts)"
    unfolding poll_unfold run by auto
  have 2: "Option.bind opts intervalMs = Some ms \<and> 1 \<le> ms \<and> ms \<le> 2147483647
        \<longrightarrow> setTimeoutDelay (intervalOf opts) = ms"
    by (simp add: intervalOf_def setTimeoutDelay_def)
  have 3: "Option.bind opts intervalMs = None \<longrightarrow> setTimeoutDelay (intervalOf opts) = 5000"
    by (simp add: intervalOf_def setTimeoutDelay_def pollingIntervalMs_def)
  have 4: "Option.bind opts timeoutMs = Some ms \<longrightarrow> timeoutOf opts = ms"
    by (simp add: timeoutOf_def)
  have 5: "Option.bind opts timeoutMs = None \<longrightarrow> timeoutOf opts = 900000"
    by (simp add: timeoutOf_def timeoutMs_default_def)
  from 1 2 3 4 5 wait_world[of m a env fires w da uc] show ?thesis by blast
qed

theorem poll_schedule_witness:
  "Option.bind (Some \<lparr>intervalMs = Some 2000, timeoutMs = Some 60000, signal = None\<rparr>) intervalMs = Some 2000
   \<and> setTimeoutDelay (intervalOf (Some \<lparr>intervalMs = Some 2000, timeoutMs = Some 60000, signal = None\<rparr>)) = 2000
   \<and> timeoutOf (Some \<lparr>intervalMs = Some 2000, timeoutMs = Some 60000, signal = None\<rparr>) = 60000
   \<and> map fst (issued world0 (snd (pollForDeviceAuthorization scenarioEnv ''d1'' ''ABCD-EFGH''
        (Some \<lparr>intervalMs = Some 2000, timeoutMs = Some 60000, signal = None\<rparr>) world0)))
       = [2000, 4000, 6000, 8000, 8000]"
proof -
  let ?o = "Some \<lparr>intervalMs = Some 2000, timeoutMs = Some 60000, signal = None\<rparr>"
  have h: "Option.bind ?o intervalMs = Some 2000 \<and> (1::nat) \<le> 2000 \<and> (2000::nat) \<le> 2147483647" by simp
  have h': "Option.bind ?o timeoutMs = Some 60000" by simp
  from poll_schedule[of world0 scenarioEnv "''d1''" "''ABCD-EFGH''" ?o 2000 initialManager 0 None] h
  have 1: "setTimeoutDelay (intervalOf ?o) = 2000" by blast
  from poll_schedule[of world0 scenarioEnv "''d1''" "''ABCD-EFGH''" ?o 60000 initialManager 0 None] h'
  have 2: "timeoutOf ?o = 60000" by blast
  have 3: "map fst (issued world0 (snd (pollForDeviceAuthorization scenarioEnv ''d1'' ''ABCD-EFGH'' ?o world0)))
       = [2000, 4000, 6000, 8000, 8000]"
    by (simp add: scenario_defs run_defs)
  from h 1 2 3 show ?thesis by blast
qed

theorem provider_interval_counterexample:
  "fst (startDeviceCodeFlow providerIntervalEnv initialManager world0)
     = Inr \<lparr>device_auth_id = ''d1'', user_code = ''ABCD-EFGH'', interval = Some 10\<rparr>
   \<and> map fst (filter (isPoll \<circ> snd)
        (requests (snd (snd (startOpenAiCodexAuth providerIntervalEnv None initialManager world0)))))
     = [5000, 10000, 15000, 20000]
   \<and> map fst (issued world0 (snd (pollForDeviceAuthorization pendingEnv ''d1'' ''ABCD-EFGH''
        (Some \<lparr>intervalMs = None, timeoutMs = Some 15000, signal = None\<rparr>) world0)))
     = [5000, 10100, 15200]"
  by (simp add: scenario_defs run_defs)

text \<open>
  C3, amended. Let the polls number 0 to n - 1 be answered pending and poll n with a success
  payload, let iteration n start before the deadline and the signal not fire before that answer
  arrives. Then \<^verbatim>\<open>pollForDeviceAuthorization\<close> sends exactly n + 1 polls followed by exactly one
  token request, which carries the \<^verbatim>\<open>authorization_code\<close> and the \<^verbatim>\<open>code_verifier\<close> of the payload,
  and its outcome is the outcome of that exchange: the credentials when the token endpoint
  answers with a success status and a well-formed body, the failure of the exchange
  otherwise.
\<close>

theorem success_payload_is_exchanged_once:
  assumes pend: "\<forall>k<n. isPending (pollReply env k)"
    and succ: "pollReply env n = Response st (Some res)" "ok st"
    and intime: "iterStart env (setTimeoutDelay (intervalOf opts)) 0 (clock w) n < clock w + timeoutOf opts"
    and nosig: "\<not> aborted (signalOf opts) (iterStart env (setTimeoutDelay (intervalOf opts)) 0 (clock w) (Suc n))"
  shows "map snd (issued w (snd (pollForDeviceAuthorization env da uc opts w))) =
           replicate (Suc n) (DeviceTokenRequest da uc)
           @ [TokenRequest (exchangeBody (authorization_code res) (code_verifier res))]
       \<and> fst (pollForDeviceAuthorization env da uc opts w) =
           (case tokenReply env (exchangeBody (authorization_code res) (code_verifier res)) of
              NetworkFailure \<Rightarrow> Inl FetchFailed
            | Response st' parsed \<Rightarrow>
                if \<not> ok st' then Inl (ExchangeFailed st')
                else (case parsed of None \<Rightarrow> Inl MalformedResponse | Some c \<Rightarrow> Inr c))"
proof -
  let ?d = "setTimeoutDelay (intervalOf opts)"
  let ?W = "\<lparr>clock = iterStart env ?d 0 (clock w) n,
             requests = requests w @ polls env da uc ?d 0 (clock w) n\<rparr>"
  note run = poll_success_run[OF assms, of da uc]
  have "requests (snd (pollForDeviceAuthorization env da uc opts w)) =
      requests w @ (polls env da uc ?d 0 (clock w) (Suc n)
        @ [(clock (answered env da uc (intervalOf opts) n ?W),
            TokenRequest (exchangeBody (authorization_code res) (code_verifier res)))])"
    unfolding run postTokenRequest_requests by (simp add: polls_Suc)
  from issued_append[OF this] have "map snd (issued w (snd (pollForDeviceAuthorization env da uc opts w))) =
           replicate (Suc n) (DeviceTokenRequest da uc)
           @ [TokenRequest (exchangeBody (authorization_code res) (code_verifier res))]"
    by (simp add: map_snd_polls del: replicate_Suc)
  moreover have "fst (pollForDeviceAuthorization env da uc opts w) =
           (case tokenReply env (exchangeBody (authorization_code res) (code_verifier res)) of
              NetworkFailure \<Rightarrow> Inl FetchFailed
            | Response st' parsed \<Rightarrow>
                if \<not> ok st' then Inl (ExchangeFailed st')
                else (case parsed of None \<Rightarrow> Inl MalformedResponse | Some c \<Rightarrow> Inr c))"
    unfolding run by (rule postTokenRequest_outcome)
  ultimately show ?thesis by blast
qed

theorem success_payload_is_exchanged_once_witness:
  "isPending (pollReply scenarioEnv 0) \<and> isPending (pollReply scenarioEnv 1)
   \<and> isPending (pollReply scenarioEnv 2)
   \<and> pollReply scenarioEnv 3 = Response 200 (Some payload0)
   \<and> map snd (issued world0 (snd (pollForDeviceAuthorization scenarioEnv ''d1'' ''ABCD-EFGH'' None world0)))
       = [DeviceTokenRequest ''d1'' ''ABCD-EFGH'', DeviceTokenRequest ''d1'' ''ABCD-EFGH'',
          DeviceTokenRequest ''d1'' ''ABCD-EFGH'', DeviceTokenRequest ''d1'' ''ABCD-EFGH'',
          TokenRequest (exchangeBody ''ac1'' ''cv'')]
   \<and> fst (pollForDeviceAuthorization scenarioEnv ''d1'' ''ABCD-EFGH'' None world0) = Inr creds0"
proof -
  have p: "\<forall>k<3. isPending (pollReply scenarioEnv k)"
    by (simp add: scenarioEnv_def)
  have s: "pollReply scenarioEnv 3 = Response 200 (Some payload0)"
    by (simp add: scenarioEnv_def)
  have k: "ok 200" by (simp add: ok_def)
  have t: "iterStart scenarioEnv (setTimeoutDelay (intervalOf None)) 0 (clock world0) 3
             < clock world0 + timeoutOf None"
    by (simp add: scenarioEnv_def intervalOf_def timeoutOf_def setTimeoutDelay_def
          pollingIntervalMs_def timeoutMs_default_def world0_def numeral_3_eq_3)
  have a: "\<not> aborted (signalOf None)
      (iterStart scenarioEnv (setTimeoutDelay (intervalOf None)) 0 (clock world0) (Suc 3))"
    by (simp add: signalOf_def aborted_def)
  from success_payload_is_exchanged_once[OF p s k t a, of "''d1''" "''ABCD-EFGH''"]
  have "map snd (issued world0 (snd (pollForDeviceAuthorization scenarioEnv ''d1'' ''ABCD-EFGH'' None world0)))
       = [DeviceTokenRequest ''d1'' ''ABCD-EFGH'', DeviceTokenRequest ''d1'' ''ABCD-EFGH'',
          DeviceTokenRequest ''d1'' ''ABCD-EFGH'', DeviceTokenRequest ''d1'' ''ABCD-EFGH'',
          TokenRequest (exchangeBody ''ac1'' ''cv'')]
     \<and> fst (pollForDeviceAuthorization scenarioEnv ''d1'' ''ABCD-EFGH'' None world0) = Inr creds0"
    by (simp add: payload0_def scenarioEnv_def ok_def numeral_3_eq_3)
  with p s show ?thesis by simp
qed

theorem success_payload_failed_exchange_counterexample:
  "pollReply exchangeFailsEnv 0 = Response 404 None
   \<and> pollReply exchangeFailsEnv 1 = Response 404 None
   \<and> pollReply exchangeFailsEnv 2 = Response 404 None
   \<and> pollReply exchangeFailsEnv 3 = Response 200 (Some payload0)
   \<and> pollForDeviceAuthorization exchangeFailsEnv ''d1'' ''ABCD-EFGH'' None world0 =
       (Inl (ExchangeFailed 400),
        \<lparr>clock = 20000,
         requests = [(5000, DeviceTokenRequest ''d1'' ''ABCD-EFGH''),
                     (10000, DeviceTokenRequest ''d1'' ''ABCD-EFGH''),
                     (15000, DeviceTokenRequest ''d1'' ''ABCD-EFGH''),
                     (20000, DeviceTokenRequest ''d1'' ''ABCD-EFGH''),
                     (20000, TokenRequest (exchangeBody ''ac1'' ''cv''))]\<rparr>)"
  by (simp add: scenario_defs run_defs exchangeBody_def)

text \<open>
  C4. When an iteration of the loop gets an answer (it began before the deadline and the signal
  did not fire before the answer arrived), the loop goes on to the next iteration exactly when
  the status is 403 or 404: with such a status the run is the run of the next iteration; with
  any other status no further poll is sent, and if that status is not a success status the
  outcome is "Device token polling failed" with it. A call whose polls are all answered
  pending ends in "timed out", at or after the deadline, or with the reason of the signal,
  after the signal has fired, and in no other way.
\<close>

theorem pending_continues_others_fail:
  "(clock w < deadline
      \<and> \<not> aborted sig (clock w + setTimeoutDelay iv + pollLatency env i)
      \<and> pollReply env i = Response st body \<longrightarrow>
        (st = 403 \<or> st = 404 \<longrightarrow>
           pollLoop env da uc iv deadline sig i w =
           pollLoop env da uc iv deadline sig (Suc i) (answered env da uc iv i w))
      \<and> (st \<noteq> 403 \<and> st \<noteq> 404 \<and> \<not> ok st \<longrightarrow>
           pollLoop env da uc iv deadline sig i w = (Inl (PollingFailed st), answered env da uc iv i w))
      \<and> (st \<noteq> 403 \<and> st \<noteq> 404 \<longrightarrow>
           filter (isPoll \<circ> snd) (issued w (snd (pollLoop env da uc iv deadline sig i w)))
             = [(clock w + setTimeoutDelay iv, DeviceTokenRequest da uc)]))
   \<and> ((\<forall>k. isPending (pollReply env k)) \<longrightarrow>
        (fst (pollForDeviceAuthorization env da uc opts w) = Inl TimedOut
          \<and> clock w + timeoutOf opts \<le> clock (snd (pollForDeviceAuthorization env da uc opts w)))
        \<or> (\<exists>s. signalOf opts = Some s
            \<and> fst (pollForDeviceAuthorization env da uc opts w) = Inl (reason s)
            \<and> aborted (signalOf opts) (clock (snd (pollForDeviceAuthorization env da uc opts w)))))"
proof (intro conjI impI)
  assume "\<forall>k. isPending (pollReply env k)"
  then show "(fst (pollForDeviceAuthorization env da uc opts w) = Inl TimedOut
          \<and> clock w + timeoutOf opts \<le> clock (snd (pollForDeviceAuthorization env da uc opts w)))
        \<or> (\<exists>s. signalOf opts = Some s
            \<and> fst (pollForDeviceAuthorization env da uc opts w) = Inl (reason s)
            \<and> aborted (signalOf opts) (clock (snd (pollForDeviceAuthorization env da uc opts w))))"
    by (rule poll_all_pending)
next
  assume a: "clock w < deadline
      \<and> \<not> aborted sig (clock w + setTimeoutDelay iv + pollLatency env i)
      \<and> pollReply env i = Response st body"
  then have eq: "pollLoop env da uc iv deadline sig i w =
     (if st = 403 \<or> st = 404 then
        pollLoop env da uc iv deadline sig (Suc i) (answered env da uc iv i w)
      else if \<not> ok st then (Inl (PollingFailed st), answered env da uc iv i w)
      else (case body of
              None \<Rightarrow> (Inl ParseError, answered env da uc iv i w)
            | Some res \<Rightarrow> exchangeDeviceCodeForTokens env (authorization_code res) (code_verifier res)
                            (answered env da uc iv i w)))"
    using pollLoop_answered by blast
  { assume "st = 403 \<or> st = 404"
    with eq show "pollLoop env da uc iv deadline sig i w =
           pollLoop env da uc iv deadline sig (Suc i) (answered env da uc iv i w)" by simp }
  { assume "st \<noteq> 403 \<and> st \<noteq> 404 \<and> \<not> ok st"
    with eq show "pollLoop env da uc iv deadline sig i w = (Inl (PollingFailed st), answered env da uc iv i w)"
      by simp }
  { assume np: "st \<noteq> 403 \<and> st \<noteq> 404"
    show "filter (isPoll \<circ> snd) (issued w (snd (pollLoop env da uc iv deadline sig i w)))
             = [(clock w + setTimeoutDelay iv, DeviceTokenRequest da uc)]"
    proof (cases "\<not> ok st \<or> body = None")
      case True
      with eq np have "snd (pollLoop env da uc iv deadline sig i w) = answered env da uc iv i w"
        by auto
      then show ?thesis by (simp add: issued_answered_self)
    next
      case False
      then obtain res where "body = Some res" "ok st" by auto
      with eq np have "snd (pollLoop env da uc iv deadline sig i w) =
          snd (postTokenRequest env (exchangeBody (authorization_code res) (code_verifier res))
                 (answered env da uc iv i w))"
        by (simp add: exchange_eq)
      then have "requests (snd (pollLoop env da uc iv deadline sig i w)) =
          requests w @ [(clock w + setTimeoutDelay iv, DeviceTokenRequest da uc),
            (clock (answered env da uc iv i w),
             TokenRequest (exchangeBody (authorization_code res) (code_verifier res)))]"
        by (simp add: postTokenRequest_requests)
      from issued_append[OF this] show ?thesis by simp
    qed }
qed

theorem pending_continues_others_fail_witness:
  "clock world0 < 900000
   \<and> pollReply pendingEnv 0 = Response 403 None
   \<and> pollLoop pendingEnv ''d1'' ''ABCD-EFGH'' 5000 900000 None 0 world0 =
       pollLoop pendingEnv ''d1'' ''ABCD-EFGH'' 5000 900000 None (Suc 0)
         (answered pendingEnv ''d1'' ''ABCD-EFGH'' 5000 0 world0)
   \<and> pollReply serverErrorEnv 0 = Response 500 None
   \<and> pollLoop serverErrorEnv ''d1'' ''ABCD-EFGH'' 5000 900000 None 0 world0 =
       (Inl (PollingFailed 500), \<lparr>clock = 5000, requests = [(5000, DeviceTokenRequest ''d1'' ''ABCD-EFGH'')]\<rparr>)
   \<and> fst (pollForDeviceAuthorization pendingEnv ''d1'' ''ABCD-EFGH''
            (Some \<lparr>intervalMs = Some 1000, timeoutMs = Some 3000, signal = None\<rparr>) world0) = Inl TimedOut
   \<and> 3000 \<le> clock (snd (pollForDeviceAuthorization pendingEnv ''d1'' ''ABCD-EFGH''
            (Some \<lparr>intervalMs = Some 1000, timeoutMs = Some 3000, signal = None\<rparr>) world0))"
proof -
  let ?o = "Some \<lparr>intervalMs = Some 1000, timeoutMs = Some 3000, signal = None\<rparr>"
  have h: "clock world0 < 900000
      \<and> \<not> aborted None (clock world0 + setTimeoutDelay 5000 + pollLatency pendingEnv 0)
      \<and> pollReply pendingEnv 0 = Response 403 None"
    by (simp add: world0_def aborted_def pendingEnv_def)
  have h5: "clock world0 < 900000
      \<and> \<not> aborted None (clock world0 + setTimeoutDelay 5000 + pollLatency serverErrorEnv 0)
      \<and> pollReply serverErrorEnv 0 = Response 500 None"
    by (simp add: world0_def aborted_def serverErrorEnv_def)
  have n5: "(500::nat) \<noteq> 403 \<and> (500::nat) \<noteq> 404 \<and> \<not> ok 500" by (simp add: ok_def)
  have p: "\<forall>k. isPending (pollReply pendingEnv k)" by (simp add: pendingEnv_def)
  note T = pending_continues_others_fail[of world0 900000 None 5000 pendingEnv 0 403 None
      "''d1''" "''ABCD-EFGH''" ?o]
  note T5 = pending_continues_others_fail[of world0 900000 None 5000 serverErrorEnv 0 500 None
      "''d1''" "''ABCD-EFGH''" ?o]
  from T h have 1: "pollLoop pendingEnv ''d1'' ''ABCD-EFGH'' 5000 900000 None 0 world0 =
       pollLoop pendingEnv ''d1'' ''ABCD-EFGH'' 5000 900000 None (Suc 0)
         (answered pendingEnv ''d1'' ''ABCD-EFGH'' 5000 0 world0)"
    by blast
  from T5 h5 n5 have "pollLoop serverErrorEnv ''d1'' ''ABCD-EFGH'' 5000 900000 None 0 world0 =
       (Inl (PollingFailed 500), answered serverErrorEnv ''d1'' ''ABCD-EFGH'' 5000 0 world0)"
    by blast
  then have 5: "pollLoop serverErrorEnv ''d1'' ''ABCD-EFGH'' 5000 900000 None 0 world0 =
       (Inl (PollingFailed 500), \<lparr>clock = 5000, requests = [(5000, DeviceTokenRequest ''d1'' ''ABCD-EFGH'')]\<rparr>)"
    by (simp add: answered_def world0_def setTimeoutDelay_def serverErrorEnv_def scenarioEnv_def)
  from T p have "(fst (pollForDeviceAuthorization pendingEnv ''d1'' ''ABCD-EFGH'' ?o world0) = Inl TimedOut
          \<and> clock world0 + timeoutOf ?o \<le> clock (snd (pollForDeviceAuthorization pendingEnv ''d1'' ''ABCD-EFGH'' ?o world0)))
        \<or> (\<exists>s. signalOf ?o = Some s
            \<and> fst (pollForDeviceAuthorization pendingEnv ''d1'' ''ABCD-EFGH'' ?o world0) = Inl (reason s)
            \<and> aborted (signalOf ?o) (clock (snd (pollForDeviceAuthorization pendingEnv ''d1'' ''ABCD-EFGH'' ?o world0))))"
    by blast
  then have 2: "fst (pollForDeviceAuthorization pendingEnv ''d1'' ''ABCD-EFGH'' ?o world0) = Inl TimedOut
     \<and> 3000 \<le> clock (snd (pollForDeviceAuthorization pendingEnv ''d1'' ''ABCD-EFGH'' ?o world0))"
    by (simp add: signalOf_def timeoutOf_def world0_def)
  from h h5 1 5 2 show ?thesis by blast
qed

text \<open>
  C5. \<^verbatim>\<open>requestDeviceCode\<close> throws the "not enabled" error exactly when the endpoint answers 404
  (within the 30 s of the request's own timeout); any other answer with a non-success status
  gives "Device code request failed" with that status; a success status with a body the schema
  accepts gives the parsed body. In every case the one device-code request is all that is
  sent, and a sign-in attempt whose device-code request fails sends nothing else: no poll.
\<close>

theorem requestDeviceCode_outcomes:
  "(fst (requestDeviceCode env w) = Inl NotEnabled \<longleftrightarrow>
      deviceCodeLatency env < 30000 \<and> (\<exists>body. deviceCodeReply env = Response 404 body))
   \<and> (deviceCodeLatency env < 30000 \<and> deviceCodeReply env = Response st body \<and> st \<noteq> 404 \<and> \<not> ok st
        \<longrightarrow> fst (requestDeviceCode env w) = Inl (DeviceCodeRequestFailed st))
   \<and> (deviceCodeLatency env < 30000 \<and> deviceCodeReply env = Response st (Some d) \<and> ok st
        \<longrightarrow> fst (requestDeviceCode env w) = Inr d)
   \<and> issued w (snd (requestDeviceCode env w)) = [(clock w, DeviceCodeRequest clientId)]
   \<and> ((\<exists>e. fst (requestDeviceCode env w) = Inl e) \<longrightarrow>
        issued w (snd (snd (startOpenAiCodexAuth env fires m w))) = [(clock w, DeviceCodeRequest clientId)])"
proof -
  have 1: "fst (requestDeviceCode env w) = Inl NotEnabled \<longleftrightarrow>
      deviceCodeLatency env < 30000 \<and> (\<exists>body. deviceCodeReply env = Response 404 body)"
    by (auto simp: requestDeviceCode_outcome split: reply.splits option.splits)
  have 2: "deviceCodeLatency env < 30000 \<and> deviceCodeReply env = Response st body \<and> st \<noteq> 404 \<and> \<not> ok st
        \<longrightarrow> fst (requestDeviceCode env w) = Inl (DeviceCodeRequestFailed st)"
    by (simp add: requestDeviceCode_outcome)
  have 3: "deviceCodeLatency env < 30000 \<and> deviceCodeReply env = Response st (Some d) \<and> ok st
        \<longrightarrow> fst (requestDeviceCode env w) = Inr d"
    by (auto simp: requestDeviceCode_outcome ok_def)
  have 4: "issued w (snd (requestDeviceCode env w)) = [(clock w, DeviceCodeRequest clientId)]"
    by (rule issued_append) (rule requestDeviceCode_requests)
  have 5: "(\<exists>e. fst (requestDeviceCode env w) = Inl e) \<longrightarrow>
        issued w (snd (snd (startOpenAiCodexAuth env fires m w))) = [(clock w, DeviceCodeRequest clientId)]"
  proof
    assume "\<exists>e. fst (requestDeviceCode env w) = Inl e"
    then obtain e w1 where r: "requestDeviceCode env w = (Inl e, w1)"
      by (cases "requestDeviceCode env w") auto
    then have "snd (snd (startOpenAiCodexAuth env fires m w)) = snd (requestDeviceCode env w)"
      by (simp add: startOpenAiCodexAuth_def startDeviceCodeFlow_def Let_def)
    with 4 show "issued w (snd (snd (startOpenAiCodexAuth env fires m w))) = [(clock w, DeviceCodeRequest clientId)]"
      by simp
  qed
  from 1 2 3 4 5 show ?thesis by blast
qed

theorem requestDeviceCode_outcomes_witness:
  "deviceCodeLatency notEnabledEnv < 30000 \<and> deviceCodeReply notEnabledEnv = Response 404 None
   \<and> fst (requestDeviceCode notEnabledEnv world0) = Inl NotEnabled
   \<and> issued world0 (snd (snd (startOpenAiCodexAuth notEnabledEnv None initialManager world0)))
       = [(0, DeviceCodeRequest clientId)]
   \<and> deviceCodeReply deviceCodeFailsEnv = Response 500 None
   \<and> fst (requestDeviceCode deviceCodeFailsEnv world0) = Inl (DeviceCodeRequestFailed 500)
   \<and> fst (requestDeviceCode scenarioEnv world0)
       = Inr \<lparr>device_auth_id = ''d1'', user_code = ''ABCD-EFGH'', interval = Some 5\<rparr>"
proof -
  let ?d = "\<lparr>device_auth_id = ''d1'', user_code = ''ABCD-EFGH'', interval = Some 5\<rparr>"
  have h: "deviceCodeLatency notEnabledEnv < 30000 \<and> (\<exists>body. deviceCodeReply notEnabledEnv = Response 404 body)"
    by (simp add: notEnabledEnv_def scenarioEnv_def)
  from requestDeviceCode_outcomes[of notEnabledEnv world0 0 None ?d None initialManager] h
  have r: "fst (requestDeviceCode notEnabledEnv world0) = Inl NotEnabled"
    and i: "(\<exists>e. fst (requestDeviceCode notEnabledEnv world0) = Inl e) \<longrightarrow>
        issued world0 (snd (snd (startOpenAiCodexAuth notEnabledEnv None initialManager world0)))
          = [(clock world0, DeviceCodeRequest clientId)]"
    by blast+
  from r i have i': "issued world0 (snd (snd (startOpenAiCodexAuth notEnabledEnv None initialManager world0)))
          = [(0, DeviceCodeRequest clientId)]" by (simp add: world0_def)
  have h5: "deviceCodeLatency deviceCodeFailsEnv < 30000
      \<and> deviceCodeReply deviceCodeFailsEnv = Response 500 None \<and> (500::nat) \<noteq> 404 \<and> \<not> ok 500"
    by (simp add: deviceCodeFailsEnv_def scenarioEnv_def ok_def)
  from requestDeviceCode_outcomes[of deviceCodeFailsEnv world0 500 None ?d None initialManager] h5
  have r5: "fst (requestDeviceCode deviceCodeFailsEnv world0) = Inl (DeviceCodeRequestFailed 500)"
    by blast
  have h2: "deviceCodeLatency scenarioEnv < 30000
      \<and> deviceCodeReply scenarioEnv = Response 200 (Some ?d) \<and> ok 200"
    by (simp add: scenarioEnv_def ok_def)
  from requestDeviceCode_outcomes[of scenarioEnv world0 200 None ?d None initialManager] h2
  have r2: "fst (requestDeviceCode scenarioEnv world0) = Inr ?d"
    by blast
  from r i' r5 r2 h5 show ?thesis by (simp add: notEnabledEnv_def scenarioEnv_def)
qed

text \<open>
  C6, amended. If every poll is answered pending and the signal never fires, the outcome is
  "timed out", produced at the first loop check at or after the deadline: at the start of
  iteration n, the first iteration that starts at or after the deadline, after exactly the
  polls number 0 to n - 1. If the signal has fired by the time the call ends and no token
  request was sent, the outcome is the reason of the signal when the timeout is positive; with
  a timeout of 0 the loop body never runs and the outcome is "timed out". Every call ends with
  its outcome, at once or no later than one iteration (timer delay, answer to the poll, token
  exchange) after the deadline, and every request of the call is sent by then. The deadline is
  only looked at before each sleep: what a poll of an iteration begun before the deadline is
  answered still counts.
\<close>

theorem poll_expires_or_is_cancelled:
  "((\<forall>k. isPending (pollReply env k)) \<and> (\<forall>t. \<not> aborted (signalOf opts) t) \<longrightarrow>
      (\<exists>n. (\<forall>k<n. iterStart env (setTimeoutDelay (intervalOf opts)) 0 (clock w) k
                       < clock w + timeoutOf opts)
          \<and> clock w + timeoutOf opts \<le> iterStart env (setTimeoutDelay (intervalOf opts)) 0 (clock w) n
          \<and> pollForDeviceAuthorization env da uc opts w =
              (Inl TimedOut,
               \<lparr>clock = iterStart env (setTimeoutDelay (intervalOf opts)) 0 (clock w) n,
                requests = requests w
                  @ polls env da uc (setTimeoutDelay (intervalOf opts)) 0 (clock w) n\<rparr>)))
   \<and> (signalOf opts = Some s
        \<and> aborted (signalOf opts) (clock (snd (pollForDeviceAuthorization env da uc opts w)))
        \<and> (\<forall>t b. (t, TokenRequest b) \<notin> set (issued w (snd (pollForDeviceAuthorization env da uc opts w))))
       \<longrightarrow> (0 < timeoutOf opts \<longrightarrow> fst (pollForDeviceAuthorization env da uc opts w) = Inl (reason s))
         \<and> (timeoutOf opts = 0 \<longrightarrow> fst (pollForDeviceAuthorization env da uc opts w) = Inl TimedOut))
   \<and> (\<forall>x \<in> set (issued w (snd (pollForDeviceAuthorization env da uc opts w))).
         fst x \<le> clock (snd (pollForDeviceAuthorization env da uc opts w)))
   \<and> (clock (snd (pollForDeviceAuthorization env da uc opts w)) = clock w
       \<or> (\<exists>j. clock (snd (pollForDeviceAuthorization env da uc opts w))
                 \<le> clock w + timeoutOf opts + setTimeoutDelay (intervalOf opts)
                     + pollLatency env j + tokenLatency env))"
proof -
  obtain r w' where run: "pollLoop env da uc (intervalOf opts) (clock w + timeoutOf opts) (signalOf opts) 0 w = (r, w')"
    using pollLoop_run_ex by blast
  then have p: "pollForDeviceAuthorization env da uc opts w = (r, w')"
    by (simp add: poll_unfold)
  have 1: "(\<forall>k. isPending (pollReply env k)) \<and> (\<forall>t. \<not> aborted (signalOf opts) t) \<longrightarrow>
      (\<exists>n. (\<forall>k<n. iterStart env (setTimeoutDelay (intervalOf opts)) 0 (clock w) k
                       < clock w + timeoutOf opts)
          \<and> clock w + timeoutOf opts \<le> iterStart env (setTimeoutDelay (intervalOf opts)) 0 (clock w) n
          \<and> pollForDeviceAuthorization env da uc opts w =
              (Inl TimedOut,
               \<lparr>clock = iterStart env (setTimeoutDelay (intervalOf opts)) 0 (clock w) n,
                requests = requests w
                  @ polls env da uc (setTimeoutDelay (intervalOf opts)) 0 (clock w) n\<rparr>))"
  proof
    assume a: "(\<forall>k. isPending (pollReply env k)) \<and> (\<forall>t. \<not> aborted (signalOf opts) t)"
    from pollLoop_expires[OF run] a show "\<exists>n. (\<forall>k<n. iterStart env (setTimeoutDelay (intervalOf opts)) 0 (clock w) k
                       < clock w + timeoutOf opts)
          \<and> clock w + timeoutOf opts \<le> iterStart env (setTimeoutDelay (intervalOf opts)) 0 (clock w) n
          \<and> pollForDeviceAuthorization env da uc opts w =
              (Inl TimedOut,
               \<lparr>clock = iterStart env (setTimeoutDelay (intervalOf opts)) 0 (clock w) n,
                requests = requests w
                  @ polls env da uc (setTimeoutDelay (intervalOf opts)) 0 (clock w) n\<rparr>)"
      unfolding p by blast
  qed
  have 2: "signalOf opts = Some s
        \<and> aborted (signalOf opts) (clock (snd (pollForDeviceAuthorization env da uc opts w)))
        \<and> (\<forall>t b. (t, TokenRequest b) \<notin> set (issued w (snd (pollForDeviceAuthorization env da uc opts w))))
       \<longrightarrow> (0 < timeoutOf opts \<longrightarrow> fst (pollForDeviceAuthorization env da uc opts w) = Inl (reason s))
         \<and> (timeoutOf opts = 0 \<longrightarrow> fst (pollForDeviceAuthorization env da uc opts w) = Inl TimedOut)"
  proof (intro impI conjI)
    assume a: "signalOf opts = Some s
        \<and> aborted (signalOf opts) (clock (snd (pollForDeviceAuthorization env da uc opts w)))
        \<and> (\<forall>t b. (t, TokenRequest b) \<notin> set (issued w (snd (pollForDeviceAuthorization env da uc opts w))))"
      and pos: "0 < timeoutOf opts"
    have "r = Inl (reason s)"
    proof (rule pollLoop_cancelled[OF run])
      show "signalOf opts = Some s" using a by simp
      have "aborted (signalOf opts) (clock (snd (pollForDeviceAuthorization env da uc opts w)))"
        using a by blast
      then show "aborted (signalOf opts) (clock w')" by (simp add: p)
      show "clock w < clock w + timeoutOf opts \<or> \<not> aborted (signalOf opts) (clock w)" using pos by simp
      have "\<forall>t b. (t, TokenRequest b) \<notin> set (issued w (snd (pollForDeviceAuthorization env da uc opts w)))"
        using a by blast
      then show "\<forall>t b. (t, TokenRequest b) \<notin> set (issued w w')" by (simp add: p)
    qed
    then show "fst (pollForDeviceAuthorization env da uc opts w) = Inl (reason s)" by (simp add: p)
  next
    assume "timeoutOf opts = 0"
    then show "fst (pollForDeviceAuthorization env da uc opts w) = Inl TimedOut"
      by (simp add: poll_timeout_0)
  qed
  from pollLoop_sent_by_end[OF run]
  have 3: "\<forall>x \<in> set (issued w (snd (pollForDeviceAuthorization env da uc opts w))).
         fst x \<le> clock (snd (pollForDeviceAuthorization env da uc opts w))"
    by (simp add: p)
  from pollLoop_end_by[OF run]
  have 4: "clock (snd (pollForDeviceAuthorization env da uc opts w)) = clock w
       \<or> (\<exists>j. clock (snd (pollForDeviceAuthorization env da uc opts w))
                 \<le> clock w + timeoutOf opts + setTimeoutDelay (intervalOf opts)
                     + pollLatency env j + tokenLatency env)"
    by (simp add: p)
  from 1 2 3 4 show ?thesis by blast
qed

theorem poll_expires_or_is_cancelled_witness:
  "pollForDeviceAuthorization pendingEnv ''d1'' ''ABCD-EFGH''
      (Some \<lparr>intervalMs = Some 1000, timeoutMs = Some 3000, signal = None\<rparr>) world0
     = (Inl TimedOut,
        \<lparr>clock = 3300,
         requests = [(1000, DeviceTokenRequest ''d1'' ''ABCD-EFGH''),
                     (2100, DeviceTokenRequest ''d1'' ''ABCD-EFGH''),
                     (3200, DeviceTokenRequest ''d1'' ''ABCD-EFGH'')]\<rparr>)
   \<and> 3000 \<le> clock (snd (pollForDeviceAuthorization pendingEnv ''d1'' ''ABCD-EFGH''
            (Some \<lparr>intervalMs = Some 1000, timeoutMs = Some 3000, signal = None\<rparr>) world0))
   \<and> clock (snd (pollForDeviceAuthorization pendingEnv ''d1'' ''ABCD-EFGH''
                   (Some (cancelledAt None 7000)) world0)) = 10100
   \<and> fst (pollForDeviceAuthorization pendingEnv ''d1'' ''ABCD-EFGH''
            (Some (cancelledAt None 7000)) world0) = Inl AbortError"
proof -
  let ?o = "Some \<lparr>intervalMs = Some 1000, timeoutMs = Some 3000, signal = None\<rparr>"
  let ?c = "Some (cancelledAt None 7000)"
  have p: "(\<forall>k. isPending (pollReply pendingEnv k)) \<and> (\<forall>t. \<not> aborted (signalOf ?o) t)"
    by (simp add: pendingEnv_def signalOf_def aborted_def)
  from poll_expires_or_is_cancelled[of pendingEnv ?o world0 "''d1''" "''ABCD-EFGH''" "AbortSignal None AbortError"] p
  obtain n where n: "clock world0 + timeoutOf ?o \<le> iterStart pendingEnv (setTimeoutDelay (intervalOf ?o)) 0 (clock world0) n"
     "pollForDeviceAuthorization pendingEnv ''d1'' ''ABCD-EFGH'' ?o world0 =
              (Inl TimedOut,
               \<lparr>clock = iterStart pendingEnv (setTimeoutDelay (intervalOf ?o)) 0 (clock world0) n,
                requests = requests world0
                  @ polls pendingEnv ''d1'' ''ABCD-EFGH'' (setTimeoutDelay (intervalOf ?o)) 0 (clock world0) n\<rparr>)"
    by blast
  then have 1: "3000 \<le> clock (snd (pollForDeviceAuthorization pendingEnv ''d1'' ''ABCD-EFGH'' ?o world0))"
    by (simp add: timeoutOf_def world0_def)
  have e1: "pollForDeviceAuthorization pendingEnv ''d1'' ''ABCD-EFGH'' ?o world0
     = (Inl TimedOut,
        \<lparr>clock = 3300,
         requests = [(1000, DeviceTokenRequest ''d1'' ''ABCD-EFGH''),
                     (2100, DeviceTokenRequest ''d1'' ''ABCD-EFGH''),
                     (3200, DeviceTokenRequest ''d1'' ''ABCD-EFGH'')]\<rparr>)"
    by (simp add: scenario_defs run_defs)
  have e: "snd (pollForDeviceAuthorization pendingEnv ''d1'' ''ABCD-EFGH'' ?c world0)
       = \<lparr>clock = 10100, requests = [(5000, DeviceTokenRequest ''d1'' ''ABCD-EFGH'')]\<rparr>"
    by (simp add: scenario_defs run_defs)
  have c: "signalOf ?c = Some (AbortSignal (Some 7000) AbortError)
        \<and> aborted (signalOf ?c) (clock (snd (pollForDeviceAuthorization pendingEnv ''d1'' ''ABCD-EFGH'' ?c world0)))
        \<and> (\<forall>t b. (t, TokenRequest b) \<notin> set (issued world0 (snd (pollForDeviceAuthorization pendingEnv ''d1'' ''ABCD-EFGH'' ?c world0))))"
    unfolding e by (simp add: signalOf_def cancelledAt_def aborted_def issued_def world0_def)
  have pos: "0 < timeoutOf ?c"
    by (simp add: cancelledAt_def timeoutOf_def timeoutMs_default_def)
  from poll_expires_or_is_cancelled[of pendingEnv ?c world0 "''d1''" "''ABCD-EFGH''" "AbortSignal (Some 7000) AbortError"] c pos
  have 2: "fst (pollForDeviceAuthorization pendingEnv ''d1'' ''ABCD-EFGH'' ?c world0)
             = Inl (reason (AbortSignal (Some 7000) AbortError))"
    by blast
  from 1 2 e e1 show ?thesis by simp
qed

theorem late_success_counterexample:
  "timeoutOf None = 900000
   \<and> fst (pollForDeviceAuthorization lateSuccessEnv ''d1'' ''ABCD-EFGH'' None world0) = Inr creds0
   \<and> clock (snd (pollForDeviceAuthorization lateSuccessEnv ''d1'' ''ABCD-EFGH'' None world0)) = 903000
   \<and> last (requests (snd (pollForDeviceAuthorization lateSuccessEnv ''d1'' ''ABCD-EFGH'' None world0)))
       = (903000, TokenRequest (exchangeBody ''ac1'' ''cv''))"
proof -
  have L: "\<forall>k. pollLatency lateSuccessEnv k = 2000" by (simp add: lateSuccessEnv_def)
  have d: "setTimeoutDelay (intervalOf None) = 5000"
    by (simp add: intervalOf_def setTimeoutDelay_def pollingIntervalMs_def)
  have T: "timeoutOf None = 900000" by (simp add: timeoutOf_def timeoutMs_default_def)
  have p: "\<forall>k<128. isPending (pollReply lateSuccessEnv k)" by (simp add: lateSuccessEnv_def)
  have s: "pollReply lateSuccessEnv 128 = Response 200 (Some payload0)" by (simp add: lateSuccessEnv_def)
  have k: "ok 200" by (simp add: ok_def)
  have t: "iterStart lateSuccessEnv (setTimeoutDelay (intervalOf None)) 0 (clock world0) 128
             < clock world0 + timeoutOf None"
    by (simp add: iterStart_const[OF L] d T world0_def)
  have a: "\<not> aborted (signalOf None)
      (iterStart lateSuccessEnv (setTimeoutDelay (intervalOf None)) 0 (clock world0) (Suc 128))"
    by (simp add: signalOf_def aborted_def)
  note run = poll_success_run[OF p s k t a, of "''d1''" "''ABCD-EFGH''"]
  have tl: "tokenLatency lateSuccessEnv = 0" "tokenReply lateSuccessEnv b = Response 200 (Some creds0)" for b
    by (simp_all add: lateSuccessEnv_def scenarioEnv_def)
  have 1: "fst (pollForDeviceAuthorization lateSuccessEnv ''d1'' ''ABCD-EFGH'' None world0) = Inr creds0"
    unfolding run by (simp add: postTokenRequest_outcome tl ok_def)
  have c: "clock (answered lateSuccessEnv ''d1'' ''ABCD-EFGH'' (intervalOf None) 128
           \<lparr>clock = iterStart lateSuccessEnv (setTimeoutDelay (intervalOf None)) 0 (clock world0) 128,
            requests = requests world0 @ polls lateSuccessEnv ''d1'' ''ABCD-EFGH''
                (setTimeoutDelay (intervalOf None)) 0 (clock world0) 128\<rparr>) = 903000"
    by (simp add: iterStart_const[OF L] d L world0_def del: iterStart.simps)
  have 2: "clock (snd (pollForDeviceAuthorization lateSuccessEnv ''d1'' ''ABCD-EFGH'' None world0)) = 903000"
    unfolding run postTokenRequest_clock c tl(1) by simp
  have 3: "last (requests (snd (pollForDeviceAuthorization lateSuccessEnv ''d1'' ''ABCD-EFGH'' None world0)))
       = (903000, TokenRequest (exchangeBody ''ac1'' ''cv''))"
    unfolding run postTokenRequest_requests using c by (simp add: payload0_def)
  from T 1 2 3 show ?thesis by blast
qed

text \<open>
  C7. The persisted credentials are written only when an attempt ends with credentials:
  after \<^verbatim>\<open>waitForDeviceAuthorization\<close> they are the returned credentials when it returns some,
  and what they were before when it throws, whatever it throws (timed out, aborted, polling
  failed, failed or malformed token exchange). Starting and cancelling a flow never touch
  them, and the same holds for a whole sign-in attempt of the view.
\<close>

theorem credentials_written_only_on_success:
  "credentials (fst (snd (waitForDeviceAuthorization env fires m w da uc))) =
     (case fst (waitForDeviceAuthorization env fires m w da uc) of
        Inr c \<Rightarrow> Some c
      | Inl e \<Rightarrow> credentials m)
   \<and> credentials (fst (snd (startDeviceCodeFlow env m w))) = credentials m
   \<and> credentials (cancelDeviceCodeFlow m w) = credentials m
   \<and> credentials (fst (snd (startOpenAiCodexAuth env fires m w))) =
     (case fst (startOpenAiCodexAuth env fires m w) of
        Inr c \<Rightarrow> Some c
      | Inl e \<Rightarrow> credentials m)"
  by (auto simp: waitForDeviceAuthorization_def saveCredentials_def startDeviceCodeFlow_def
        startOpenAiCodexAuth_def Let_def
      split: option.splits prod.splits sum.splits)

theorem credentials_written_only_on_success_witness:
  "fst (startOpenAiCodexAuth exchangeFailsEnv None signedInManager world0) = Inl (ExchangeFailed 400)
   \<and> credentials (fst (snd (startOpenAiCodexAuth exchangeFailsEnv None signedInManager world0)))
       = credentials signedInManager"
proof -
  have out: "fst (startOpenAiCodexAuth exchangeFailsEnv None signedInManager world0) = Inl (ExchangeFailed 400)"
    by (simp add: scenario_defs run_defs)
  from credentials_written_only_on_success[of exchangeFailsEnv None signedInManager world0]
  have "credentials (fst (snd (startOpenAiCodexAuth exchangeFailsEnv None signedInManager world0))) =
     (case fst (startOpenAiCodexAuth exchangeFailsEnv None signedInManager world0) of
        Inr c \<Rightarrow> Some c
      | Inl e \<Rightarrow> credentials signedInManager)" by blast
  with out show ?thesis by simp
qed

text \<open>
  C8. The code at the input where it parts from the claim. A first sign-in attempt calls
  \<^verbatim>\<open>startDeviceCodeFlow\<close> at time 0 and its device-code request is answered after 100 ms. At
  50 ms a second attempt calls \<^verbatim>\<open>startDeviceCodeFlow\<close> on the same manager. All that
  \<^verbatim>\<open>startDeviceCodeFlow\<close> does to the manager it does before it awaits the answer, so the second
  call finds the manager as the first has left it: it aborts controller 0 and installs
  controller 1. The device-code request carries no signal of the controller, so the first
  attempt gets its answer at 100 ms and calls \<^verbatim>\<open>waitForDeviceAuthorization\<close> on the manager as
  the second call has left it. It reads controller 1, which is live: it polls at 5100, 10100,
  15100 and 20100 ms, exchanges the code and stores the credentials, while the second attempt
  polls at 5150, 10150, 15150 and 20150 ms. (Each world lists the requests of its own attempt.)
\<close>

theorem restart_while_device_code_pending:
  "fst firstStart = Inr \<lparr>device_auth_id = ''d1'', user_code = ''ABCD-EFGH'', interval = Some 5\<rparr>
   \<and> snd (snd firstStart) = \<lparr>clock = 100, requests = [(0, DeviceCodeRequest clientId)]\<rparr>
   \<and> controllers (fst (snd secondStart)) 0 = Some (AbortSignal (Some 50) AbortError)
   \<and> deviceCodeAbortController (fst (snd secondStart)) = Some 1
   \<and> controllers (fst (snd secondStart)) 1 = Some (AbortSignal None AbortError)
   \<and> snd (snd secondStart)
       = \<lparr>clock = 150, requests = [(0, DeviceCodeRequest clientId), (50, DeviceCodeRequest clientId)]\<rparr>
   \<and> fst (waitForDeviceAuthorization slowCodeEnv None (fst (snd secondStart)) (snd (snd firstStart))
             ''d1'' ''ABCD-EFGH'') = Inr creds0
   \<and> credentials (fst (snd (waitForDeviceAuthorization slowCodeEnv None (fst (snd secondStart))
                                (snd (snd firstStart)) ''d1'' ''ABCD-EFGH''))) = Some creds0
   \<and> snd (snd (waitForDeviceAuthorization slowCodeEnv None (fst (snd secondStart)) (snd (snd firstStart))
                  ''d1'' ''ABCD-EFGH''))
       = \<lparr>clock = 20100,
          requests = [(0, DeviceCodeRequest clientId),
                      (5100, DeviceTokenRequest ''d1'' ''ABCD-EFGH''),
                      (10100, DeviceTokenRequest ''d1'' ''ABCD-EFGH''),
                      (15100, DeviceTokenRequest ''d1'' ''ABCD-EFGH''),
                      (20100, DeviceTokenRequest ''d1'' ''ABCD-EFGH''),
                      (20100, TokenRequest (exchangeBody ''ac1'' ''cv''))]\<rparr>
   \<and> snd (snd (waitForDeviceAuthorization slowCodeEnv None (fst (snd secondStart)) (snd (snd secondStart))
                  ''d1'' ''ABCD-EFGH''))
       = \<lparr>clock = 20150,
          requests = [(0, DeviceCodeRequest clientId), (50, DeviceCodeRequest clientId),
                      (5150, DeviceTokenRequest ''d1'' ''ABCD-EFGH''),
                      (10150, DeviceTokenRequest ''d1'' ''ABCD-EFGH''),
                      (15150, DeviceTokenRequest ''d1'' ''ABCD-EFGH''),
                      (20150, DeviceTokenRequest ''d1'' ''ABCD-EFGH''),
                      (20150, TokenRequest (exchangeBody ''ac1'' ''cv''))]\<rparr>"
  by (simp add: scenario_defs run_defs exchangeBody_def)

text \<open>
  C9. \<^verbatim>\<open>cancelDeviceCodeFlow\<close> is idempotent: called again, at whatever later time, it leaves
  the manager as the first call left it; with no pending flow (the flow was cancelled, or
  completed) it changes nothing; and once a sign-in attempt of the view has ended, with any
  outcome, cancelling changes nothing.
\<close>

theorem cancelDeviceCodeFlow_idempotent:
  "cancelDeviceCodeFlow (cancelDeviceCodeFlow m w) w2 = cancelDeviceCodeFlow m w
   \<and> (deviceCodeAbortController m = None \<longrightarrow> cancelDeviceCodeFlow m w = m)
   \<and> cancelDeviceCodeFlow (fst (snd (startOpenAiCodexAuth env fires m w))) w2
        = fst (snd (startOpenAiCodexAuth env fires m w))"
  by (auto simp: cancelDeviceCodeFlow_def startOpenAiCodexAuth_def waitForDeviceAuthorization_def
        startDeviceCodeFlow_def saveCredentials_def Let_def
      split: option.splits prod.splits sum.splits)

theorem cancelDeviceCodeFlow_idempotent_witness:
  "deviceCodeAbortController (cancelDeviceCodeFlow
       (fst (snd (startDeviceCodeFlow scenarioEnv initialManager world0))) world0) = None
   \<and> cancelDeviceCodeFlow (cancelDeviceCodeFlow
       (fst (snd (startDeviceCodeFlow scenarioEnv initialManager world0))) world0) world0
     = cancelDeviceCodeFlow (fst (snd (startDeviceCodeFlow scenarioEnv initialManager world0))) world0"
proof -
  let ?m = "cancelDeviceCodeFlow (fst (snd (startDeviceCodeFlow scenarioEnv initialManager world0))) world0"
  have h: "deviceCodeAbortController ?m = None"
    by (simp add: cancelDeviceCodeFlow_def split: option.splits)
  from cancelDeviceCodeFlow_idempotent[of ?m world0 world0] h
  have "cancelDeviceCodeFlow ?m world0 = ?m" by blast
  with h show ?thesis by simp
qed

text \<open>
  C10. Without a pending flow (the field \<^verbatim>\<open>deviceCodeAbortController\<close> is \<^verbatim>\<open>null\<close>)
  \<^verbatim>\<open>waitForDeviceAuthorization\<close> throws "No pending device code flow" at once: the world (clock
  and requests sent) and the manager (stored credentials included) are unchanged. The field is
  \<^verbatim>\<open>null\<close> initially, after \<^verbatim>\<open>cancelDeviceCodeFlow\<close>, and after a wait that returned credentials.
\<close>

theorem wait_without_pending_flow:
  "(deviceCodeAbortController m = None \<longrightarrow>
      waitForDeviceAuthorization env fires m w da uc = (Inl NoPendingFlow, m, w))
   \<and> deviceCodeAbortController initialManager = None
   \<and> deviceCodeAbortController (cancelDeviceCodeFlow m w0) = None
   \<and> (fst (waitForDeviceAuthorization env fires m w da uc) = Inr c \<longrightarrow>
        deviceCodeAbortController (fst (snd (waitForDeviceAuthorization env fires m w da uc))) = None)"
  by (auto simp: waitForDeviceAuthorization_def initialManager_def cancelDeviceCodeFlow_def
      split: option.splits prod.splits sum.splits)

theorem wait_without_pending_flow_witness:
  "deviceCodeAbortController initialManager = None
   \<and> waitForDeviceAuthorization scenarioEnv None initialManager world0 ''d1'' ''ABCD-EFGH''
       = (Inl NoPendingFlow, initialManager, world0)
   \<and> fst (startOpenAiCodexAuth scenarioEnv None initialManager world0) = Inr creds0
   \<and> fst (waitForDeviceAuthorization scenarioEnv None
            (fst (snd (startOpenAiCodexAuth scenarioEnv None initialManager world0)))
            (snd (snd (startOpenAiCodexAuth scenarioEnv None initialManager world0)))
            ''d1'' ''ABCD-EFGH'') = Inl NoPendingFlow"
proof -
  let ?m = "fst (snd (startOpenAiCodexAuth scenarioEnv None initialManager world0))"
  let ?w = "snd (snd (startOpenAiCodexAuth scenarioEnv None initialManager world0))"
  have fin: "fst (startOpenAiCodexAuth scenarioEnv None initialManager world0) = Inr creds0"
    by (simp add: scenario_defs run_defs)
  have h2: "deviceCodeAbortController ?m = None"
    by (simp add: scenario_defs run_defs)
  from wait_without_pending_flow[of ?m scenarioEnv None ?w "''d1''" "''ABCD-EFGH''"] h2
  have again: "fst (waitForDeviceAuthorization scenarioEnv None ?m ?w ''d1'' ''ABCD-EFGH'') = Inl NoPendingFlow"
    by simp
  have h: "deviceCodeAbortController initialManager = None" by (simp add: initialManager_def)
  from wait_without_pending_flow[of initialManager scenarioEnv None world0 "''d1''" "''ABCD-EFGH''"] h
  have "waitForDeviceAuthorization scenarioEnv None initialManager world0 ''d1'' ''ABCD-EFGH''
       = (Inl NoPendingFlow, initialManager, world0)" by blast
  with h fin again show ?thesis by simp
qed

end
